theory Spec2Isabelle
  imports Complex_Main "HOL-Library.Word"
begin

section \<open>JavaScript values, as the two edge functions see them\<close>

text \<open>
  The two edge functions (\<open>evaluate\<close> and \<open>ab-test\<close>) are TypeScript programs that run on
  untyped JavaScript values: the provider's reply is whatever \<open>response.json()\<close> yields.
  The model keeps that: a reply is a \<open>jsval\<close>, and every property read, truthiness test
  and \<open>+\<close> of the source is a function on \<open>jsval\<close>.

  Conventions of the model.
  \<^item> A JavaScript string is the list of its 16-bit code units, a \<open>jstring\<close>. Text that the
    program itself writes (property names, messages) is written as a \<open>string\<close> and
    embedded by \<open>str\<close>.
  \<^item> A number is exact. Inside a \<open>jsval\<close> it is a whole number (\<open>JNum\<close>): the numbers the
    program reads in a reply are token counts, and whole numbers of magnitude up to \<open>2^53\<close>
    are doubles that the language adds exactly and prints in decimal. Wherever a result
    depends on it, a theorem states the bound; fractions, and the rounding of doubles
    beyond the bound, are outside the model. Where the source divides (latencies, averages,
    rates) the number is a rational.
  \<^item> An exception is a value \<open>Inl e\<close> of a sum type.
  \<^item> \<open>String.prototype.toLowerCase\<close> and \<open>Number\<close> on a string are functions of the
    language that depend on the Unicode tables (the lower case of a letter may depend on
    its neighbours and may be longer than the letter) and on the grammar of numerals. The
    functions that call them take them as the parameters \<open>toLowerCase\<close> and \<open>toNumber\<close>,
    and what is proved holds for every such function.
\<close>

type_synonym jstring = "16 word list"

definition str :: "string \<Rightarrow> jstring" where
  "str s = map (\<lambda>c. of_nat (of_char c)) s"

datatype jsval =
    JUndef
  | JNull
  | JBool bool
  | JNum int
  | JNaN
  | JStr jstring
  | JArr "jsval list"
  | JObj "(jstring \<times> jsval) list"

text \<open>Errors that reach the \<open>catch\<close> of a handler. \<open>AppError m\<close> is \<open>new Error(m)\<close> thrown
  by the program itself; the other three are raised by the runtime, with a message of the
  runtime's own wording: \<open>TypeError\<close> by a property read on \<open>null\<close> or \<open>undefined\<close>, a
  call of something that is no function, a loop over something that cannot be walked
  through, or the conversion of an object that cannot be converted; \<open>SyntaxError\<close> by
  \<open>response.json()\<close> on a body that is not JSON; \<open>NetworkError\<close> by a \<open>fetch\<close> that gets no
  response at all.\<close>

datatype failure = AppError jstring | TypeError | SyntaxError | NetworkError

subsection \<open>Strings\<close>

text \<open>\<open>String.prototype.trim\<close> removes white space and line terminators at both ends:
  tab, line feed, vertical tab, form feed, carriage return, space, no-break space, the
  Ogham space mark, the spaces U+2000 to U+200A, line and paragraph separator, narrow
  no-break space, medium mathematical space, ideographic space and the byte order mark.\<close>

definition js_whitespace :: "16 word \<Rightarrow> bool" where
  "js_whitespace c =
     (c \<in> set [0x0009, 0x000A, 0x000B, 0x000C, 0x000D, 0x0020, 0x00A0, 0x1680,
                0x2000, 0x2001, 0x2002, 0x2003, 0x2004, 0x2005, 0x2006, 0x2007, 0x2008,
                0x2009, 0x200A, 0x2028, 0x2029, 0x202F, 0x205F, 0x3000, 0xFEFF])"

definition trim :: "jstring \<Rightarrow> jstring" where
  "trim s = rev (dropWhile js_whitespace (rev (dropWhile js_whitespace s)))"

fun startsWith :: "jstring \<Rightarrow> jstring \<Rightarrow> bool" where
  "startsWith s [] = True"
| "startsWith [] (p # ps) = False"
| "startsWith (c # cs) (p # ps) = (c = p \<and> startsWith cs ps)"

text \<open>\<open>s.includes(p)\<close>: the code units of \<open>p\<close> occur in \<open>s\<close> at some position; the search
  tries every start position from the left.\<close>

fun js_includes :: "jstring \<Rightarrow> jstring \<Rightarrow> bool" where
  "js_includes [] p = (p = [])"
| "js_includes (c # cs) p = (startsWith (c # cs) p \<or> js_includes cs p)"

text \<open>A template literal prints a whole number in decimal.\<close>

definition digit_char :: "nat \<Rightarrow> char" where
  "digit_char d = char_of (48 + d)"

fun show_nat :: "nat \<Rightarrow> string" where
  "show_nat n = (if n < 10 then [digit_char n] else show_nat (n div 10) @ [digit_char (n mod 10)])"

declare show_nat.simps [simp del]

definition show_int :: "int \<Rightarrow> string" where
  "show_int i = (if i < 0 then CHR ''-'' # show_nat (nat (- i)) else show_nat (nat i))"

text \<open>A loop \<open>for (const x of s)\<close> over a string walks through its code points: a high
  surrogate followed by a low surrogate is one step, every other code unit is a step of
  its own.\<close>

fun code_points :: "jstring \<Rightarrow> jstring list" where
  "code_points [] = []"
| "code_points [c] = [[c]]"
| "code_points (c # d # rest) =
     (if 0xD800 \<le> c \<and> c \<le> 0xDBFF \<and> 0xDC00 \<le> d \<and> d \<le> 0xDFFF
      then [c, d] # code_points rest
      else [c] # code_points (d # rest))"

subsection \<open>Truthiness, property reads, conversion to text, addition\<close>

fun truthy :: "jsval \<Rightarrow> bool" where
  "truthy JUndef = False"
| "truthy JNull = False"
| "truthy (JBool b) = b"
| "truthy (JNum n) = (n \<noteq> 0)"
| "truthy JNaN = False"
| "truthy (JStr s) = (s \<noteq> [])"
| "truthy (JArr xs) = True"
| "truthy (JObj kvs) = True"

text \<open>\<open>a || b\<close>.\<close>

definition js_or :: "jsval \<Rightarrow> jsval \<Rightarrow> jsval" where
  "js_or a b = (if truthy a then a else b)"

fun nullish :: "jsval \<Rightarrow> bool" where
  "nullish JUndef = True"
| "nullish JNull = True"
| "nullish v = False"

text \<open>An object that came out of JSON is the list of its own properties, each name once;
  its prototype is the language's \<open>Object.prototype\<close>. \<open>v.name\<close> on a value that is neither
  \<open>null\<close> nor \<open>undefined\<close>, for the names this program reads (\<open>candidates\<close>, \<open>content\<close>,
  \<open>parts\<close>, \<open>text\<close>, \<open>safetyRatings\<close>, \<open>category\<close>, \<open>probability\<close>, \<open>usageMetadata\<close>,
  \<open>promptTokenCount\<close>, \<open>candidatesTokenCount\<close>): an object has the property or not;
  arrays, strings, numbers and booleans have none of them, and neither have their
  prototypes.\<close>

fun field :: "string \<Rightarrow> jsval \<Rightarrow> jsval" where
  "field name (JObj kvs) = (case map_of kvs (str name) of Some v \<Rightarrow> v | None \<Rightarrow> JUndef)"
| "field name v = JUndef"

text \<open>\<open>v[0]\<close> on a value that is neither \<open>null\<close> nor \<open>undefined\<close>: the first element of an
  array, the first code unit of a string, the property \<open>"0"\<close> of an object.\<close>

fun first :: "jsval \<Rightarrow> jsval" where
  "first (JArr (x # xs)) = x"
| "first (JStr (c # cs)) = JStr [c]"
| "first (JObj kvs) = (case map_of kvs (str ''0'') of Some v \<Rightarrow> v | None \<Rightarrow> JUndef)"
| "first v = JUndef"

text \<open>\<open>v?.p\<close> yields \<open>undefined\<close> on \<open>null\<close> and \<open>undefined\<close>; \<open>v.p\<close> throws a TypeError there.\<close>

definition opt :: "(jsval \<Rightarrow> jsval) \<Rightarrow> jsval \<Rightarrow> jsval" where
  "opt p v = (if nullish v then JUndef else p v)"

definition strict :: "(jsval \<Rightarrow> jsval) \<Rightarrow> jsval \<Rightarrow> failure + jsval" where
  "strict p v = (if nullish v then Inl TypeError else Inr (p v))"

text \<open>\<open>Array.prototype.join\<close> with a comma, over elements already turned into text; the
  first element that could not be turned into text throws.\<close>

fun join_comma :: "(failure + jstring) list \<Rightarrow> failure + jstring" where
  "join_comma [] = Inr []"
| "join_comma (Inl e # rest) = Inl e"
| "join_comma [Inr s] = Inr s"
| "join_comma (Inr s # r # rest) =
     (case join_comma (r # rest) of Inl e \<Rightarrow> Inl e | Inr t \<Rightarrow> Inr (s @ str '','' @ t))"

text \<open>\<open>String(v)\<close>, which is also how a value becomes a property key and how \<open>+\<close> joins
  text. An array prints its elements separated by commas, \<open>null\<close> and \<open>undefined\<close>
  elements as nothing. An object is printed by its \<open>toString\<close> method: an object out of
  JSON that has a property \<open>toString\<close> of its own has no such method (no JSON value can
  be called, and \<open>valueOf\<close>, its own or the inherited one, yields no primitive value),
  and the conversion throws a TypeError; every other object inherits the method that
  prints \<open>[object Object]\<close>.\<close>

fun js_to_string :: "jsval \<Rightarrow> failure + jstring" where
  "js_to_string JUndef = Inr (str ''undefined'')"
| "js_to_string JNull = Inr (str ''null'')"
| "js_to_string (JBool b) = Inr (if b then str ''true'' else str ''false'')"
| "js_to_string (JNum n) = Inr (str (show_int n))"
| "js_to_string JNaN = Inr (str ''NaN'')"
| "js_to_string (JStr s) = Inr s"
| "js_to_string (JArr xs) =
     join_comma (map (\<lambda>x. if nullish x then Inr [] else js_to_string x) xs)"
| "js_to_string (JObj kvs) =
     (if map_of kvs (str ''toString'') \<noteq> None then Inl TypeError
      else Inr (str ''[object Object]''))"

text \<open>\<open>a + b\<close>: first the left side, then the right side is made a primitive value (an
  array or an object is turned into text, which may throw); if either side is then text
  the result is the concatenation, otherwise the sum of the two sides as numbers
  (\<open>true\<close> is 1, \<open>false\<close> and \<open>null\<close> are 0, \<open>undefined\<close> is NaN).\<close>

fun to_primitive :: "jsval \<Rightarrow> failure + jsval" where
  "to_primitive (JArr xs) = map_sum id JStr (js_to_string (JArr xs))"
| "to_primitive (JObj kvs) = map_sum id JStr (js_to_string (JObj kvs))"
| "to_primitive v = Inr v"

fun is_text :: "jsval \<Rightarrow> bool" where
  "is_text (JStr s) = True"
| "is_text v = False"

fun to_int :: "jsval \<Rightarrow> int option" where
  "to_int (JNum n) = Some n"
| "to_int (JBool b) = Some (if b then 1 else 0)"
| "to_int JNull = Some 0"
| "to_int v = None"

definition js_add :: "jsval \<Rightarrow> jsval \<Rightarrow> failure + jsval" where
  "js_add a b =
     (case to_primitive a of
        Inl e \<Rightarrow> Inl e
      | Inr pa \<Rightarrow>
          (case to_primitive b of
             Inl e \<Rightarrow> Inl e
           | Inr pb \<Rightarrow>
               if is_text pa \<or> is_text pb
               then (case js_to_string pa of
                       Inl e \<Rightarrow> Inl e
                     | Inr sa \<Rightarrow>
                         (case js_to_string pb of
                            Inl e \<Rightarrow> Inl e
                          | Inr sb \<Rightarrow> Inr (JStr (sa @ sb))))
               else Inr (case (to_int pa, to_int pb) of
                           (Some x, Some y) \<Rightarrow> JNum (x + y)
                         | _ \<Rightarrow> JNaN)))"

subsection \<open>Numbers\<close>

text \<open>\<open>Math.round(x)\<close> is the integer nearest to \<open>x\<close>, a tie going up; the source rounds
  to two decimals by \<open>Math.round(x * 100) / 100\<close>.\<close>

definition math_round :: "rat \<Rightarrow> int" where
  "math_round x = \<lfloor>x + 1 / 2\<rfloor>"

definition round2 :: "rat \<Rightarrow> rat" where
  "round2 x = of_int (math_round (x * 100)) / 100"

text \<open>A number that came out of text may be NaN or infinite. \<open>x / n\<close> turns \<open>x\<close> into a
  number first: a text by \<open>toNumber\<close>, an array or object by its text, which may throw.\<close>

datatype jsnum = Fin rat | NaN | PosInf | NegInf

fun to_number :: "(jstring \<Rightarrow> jsnum) \<Rightarrow> jsval \<Rightarrow> failure + jsnum" where
  "to_number toNumber JUndef = Inr NaN"
| "to_number toNumber JNull = Inr (Fin 0)"
| "to_number toNumber (JBool b) = Inr (Fin (if b then 1 else 0))"
| "to_number toNumber (JNum n) = Inr (Fin (of_int n))"
| "to_number toNumber JNaN = Inr NaN"
| "to_number toNumber (JStr s) = Inr (toNumber s)"
| "to_number toNumber (JArr xs) = map_sum id toNumber (js_to_string (JArr xs))"
| "to_number toNumber (JObj kvs) = map_sum id toNumber (js_to_string (JObj kvs))"

text \<open>\<open>x / n\<close> for a positive count \<open>n\<close>, and \<open>Math.round(x * 100) / 100\<close>, on such a
  number: NaN and the infinities stay what they are.\<close>

fun num_div :: "jsnum \<Rightarrow> nat \<Rightarrow> jsnum" where
  "num_div (Fin x) n = Fin (x / of_nat n)"
| "num_div v n = v"

fun num_round2 :: "jsnum \<Rightarrow> jsnum" where
  "num_round2 (Fin x) = Fin (round2 x)"
| "num_round2 v = v"

section \<open>The provider and the trace of effects\<close>

text \<open>
  One provider call is one \<open>fetch\<close>. Its outcome is fixed by the outside world: the clock
  readings \<open>Date.now()\<close> before and after the call, the reply, and the clock as
  \<open>new Date().toISOString()\<close> prints it when the result is built. The world is a function
  from the number of calls made so far to the outcome of the next one. What the request
  does to the outside world is recorded in a trace: the provider calls (model and task)
  and the pauses (milliseconds), in order.
\<close>

text \<open>Of a response the runner reads \<open>status\<close> (and \<open>ok\<close>, which holds for 200 to 299),
  \<open>text()\<close>, and \<open>json()\<close>, which fails when the body is not JSON.\<close>

record http_response =
  http_status :: nat
  text_body :: jstring
  json_body :: "jsval option"

definition ok :: "http_response \<Rightarrow> bool" where
  "ok response = (200 \<le> http_status response \<and> http_status response \<le> 299)"

datatype reply = NetworkFailure | Replied http_response

record call =
  startTime :: int
  reply :: reply
  endTime :: int
  isoTime :: string

type_synonym provider = "nat \<Rightarrow> call"

datatype event = Fetch string jstring | Sleep nat

type_synonym trace = "event list"

fun is_fetch :: "event \<Rightarrow> bool" where
  "is_fetch (Fetch m t) = True"
| "is_fetch (Sleep n) = False"

definition fetches :: "trace \<Rightarrow> nat" where
  "fetches tr = length (filter is_fetch tr)"

section \<open>The runner\<close>

text \<open>In a run, \<open>safety_ratings\<close> lists the own properties of the record in the order in
  which the language enumerates (and serialises) them.\<close>

record RunResult =
  run_number :: int
  response_text :: jsval
  latency_ms :: rat
  token_count :: jsval
  safety_ratings :: "(jstring \<times> jsval) list"
  success :: bool
  timestamp :: string

text \<open>\<open>data.candidates?.[0]?.content?.parts?.[0]?.text || ""\<close>\<close>

definition responseText_of :: "jsval \<Rightarrow> failure + jsval" where
  "responseText_of data =
     (case strict (field ''candidates'') data of
        Inl e \<Rightarrow> Inl e
      | Inr candidates \<Rightarrow>
          Inr (js_or (opt (field ''text'') (opt first (opt (field ''parts'')
                 (opt (field ''content'') (opt first candidates))))) (JStr [])))"

text \<open>\<open>for (const rating of v)\<close>: an array gives its elements, a string its code points,
  anything else is not iterable.\<close>

fun iterate :: "jsval \<Rightarrow> failure + jsval list" where
  "iterate (JArr xs) = Inr xs"
| "iterate (JStr s) = Inr (map JStr (code_points s))"
| "iterate v = Inl TypeError"

subsection \<open>Assignment to a property of the record of safety ratings\<close>

text \<open>
  The record starts as \<open>{}\<close>: no own property, prototype \<open>Object.prototype\<close>. The language
  enumerates the own properties with the array indices first (the names that are the
  decimal form of a whole number up to \<open>2^32 - 2\<close>), in ascending order, and then the other
  names in the order of their creation.
\<close>

datatype prototype = ObjectPrototype | NoPrototype | ValuePrototype jsval

fun digit_value :: "16 word \<Rightarrow> int option" where
  "digit_value c = (if 0x30 \<le> c \<and> c \<le> 0x39 then Some (uint c - 48) else None)"

fun digits_value :: "jstring \<Rightarrow> int \<Rightarrow> int option" where
  "digits_value [] acc = Some acc"
| "digits_value (c # cs) acc =
     (case digit_value c of None \<Rightarrow> None | Some d \<Rightarrow> digits_value cs (10 * acc + d))"

definition array_index :: "jstring \<Rightarrow> int option" where
  "array_index key =
     (if key = [] \<or> (hd key = 0x30 \<and> key \<noteq> [0x30]) then None
      else (case digits_value key 0 of
              None \<Rightarrow> None
            | Some n \<Rightarrow> if n \<le> 4294967294 then Some n else None))"

text \<open>A new property takes its place in the enumeration.\<close>

fun insert_index :: "int \<Rightarrow> jstring \<Rightarrow> jsval \<Rightarrow> (jstring \<times> jsval) list \<Rightarrow> (jstring \<times> jsval) list" where
  "insert_index n key v [] = [(key, v)]"
| "insert_index n key v ((key', v') # rest) =
     (case array_index key' of
        Some m \<Rightarrow> if m < n then (key', v') # insert_index n key v rest
                  else (key, v) # (key', v') # rest
      | None \<Rightarrow> (key, v) # (key', v') # rest)"

definition create_property :: "jstring \<Rightarrow> jsval \<Rightarrow> (jstring \<times> jsval) list \<Rightarrow> (jstring \<times> jsval) list" where
  "create_property key v props =
     (case array_index key of
        Some n \<Rightarrow> insert_index n key v props
      | None \<Rightarrow> props @ [(key, v)])"

text \<open>A property that exists keeps its place and takes the new value.\<close>

fun update_property :: "jstring \<Rightarrow> jsval \<Rightarrow> (jstring \<times> jsval) list \<Rightarrow> (jstring \<times> jsval) list" where
  "update_property key v [] = []"
| "update_property key v ((key', v') # rest) =
     (if key' = key then (key, v) # rest else (key', v') # update_property key v rest)"

text \<open>
  An assignment to a name the record does not have looks the name up along the
  prototypes. The one inherited property that is not plain data is the accessor
  \<open>__proto__\<close> of \<open>Object.prototype\<close>: it is reached unless the record has lost its prototype
  or has been given an object that has a property \<open>__proto__\<close> of its own (JSON can make
  one). Its setter makes an object, an array or \<open>null\<close> the new prototype and ignores every
  other value; it creates no property. In every other case the assignment creates the
  property on the record.
\<close>

fun reaches_setter :: "prototype \<Rightarrow> bool" where
  "reaches_setter ObjectPrototype = True"
| "reaches_setter NoPrototype = False"
| "reaches_setter (ValuePrototype (JObj kvs)) = (map_of kvs (str ''__proto__'') = None)"
| "reaches_setter (ValuePrototype v) = True"

fun set_prototype :: "jsval \<Rightarrow> prototype \<Rightarrow> prototype" where
  "set_prototype (JObj kvs) p = ValuePrototype (JObj kvs)"
| "set_prototype (JArr xs) p = ValuePrototype (JArr xs)"
| "set_prototype JNull p = NoPrototype"
| "set_prototype v p = p"

definition set_property ::
  "jstring \<Rightarrow> jsval \<Rightarrow> (jstring \<times> jsval) list \<times> prototype
     \<Rightarrow> (jstring \<times> jsval) list \<times> prototype" where
  "set_property key v record =
     (case record of (props, proto) \<Rightarrow>
        if map_of props key \<noteq> None then (update_property key v props, proto)
        else if key = str ''__proto__'' \<and> reaches_setter proto
          then (props, set_prototype v proto)
        else (create_property key v props, proto))"

text \<open>The body of the loop: \<open>safetyRatings[rating.category] = rating.probability\<close>. The
  category becomes the property key as \<open>String\<close> would print it.\<close>

fun add_ratings ::
  "jsval list \<Rightarrow> (jstring \<times> jsval) list \<times> prototype
     \<Rightarrow> failure + (jstring \<times> jsval) list \<times> prototype" where
  "add_ratings [] safetyRatings = Inr safetyRatings"
| "add_ratings (rating # rest) safetyRatings =
     (case strict (field ''category'') rating of
        Inl e \<Rightarrow> Inl e
      | Inr category \<Rightarrow>
          (case strict (field ''probability'') rating of
             Inl e \<Rightarrow> Inl e
           | Inr probability \<Rightarrow>
               (case js_to_string category of
                  Inl e \<Rightarrow> Inl e
                | Inr key \<Rightarrow> add_ratings rest (set_property key probability safetyRatings))))"

text \<open>The test reads \<open>data.candidates?.[0]?.safetyRatings\<close>; the loop reads
  \<open>data.candidates[0].safetyRatings\<close> again, without the question marks.\<close>

definition safetyRatings_of :: "jsval \<Rightarrow> failure + (jstring \<times> jsval) list" where
  "safetyRatings_of data =
     (case strict (field ''candidates'') data of
        Inl e \<Rightarrow> Inl e
      | Inr candidates \<Rightarrow>
          if truthy (opt (field ''safetyRatings'') (opt first candidates))
          then (case strict first candidates of
                  Inl e \<Rightarrow> Inl e
                | Inr candidate \<Rightarrow>
                    (case strict (field ''safetyRatings'') candidate of
                       Inl e \<Rightarrow> Inl e
                     | Inr ratings \<Rightarrow>
                         (case iterate ratings of
                            Inl e \<Rightarrow> Inl e
                          | Inr rs \<Rightarrow> map_sum id fst (add_ratings rs ([], ObjectPrototype)))))
          else Inr [])"

text \<open>\<open>(data.usageMetadata?.promptTokenCount || 0) +
  (data.usageMetadata?.candidatesTokenCount || 0)\<close>\<close>

definition tokenCount_of :: "jsval \<Rightarrow> failure + jsval" where
  "tokenCount_of data =
     (case strict (field ''usageMetadata'') data of
        Inl e \<Rightarrow> Inl e
      | Inr usageMetadata \<Rightarrow>
          js_add (js_or (opt (field ''promptTokenCount'') usageMetadata) (JNum 0))
                 (js_or (opt (field ''candidatesTokenCount'') usageMetadata) (JNum 0)))"

text \<open>\<open>checkSuccess\<close> of \<open>evaluate\<close>. The response text is whatever the reply held under
  \<open>text\<close>; only a string has \<open>toLowerCase\<close>.\<close>

definition checkSuccess :: "(jstring \<Rightarrow> jstring) \<Rightarrow> jsval \<Rightarrow> jstring \<Rightarrow> failure + bool" where
  "checkSuccess toLowerCase responseText expectedOutput =
     (if trim expectedOutput = [] then Inr True
      else (case responseText of
              JStr t \<Rightarrow> Inr (js_includes (toLowerCase t) (toLowerCase expectedOutput))
            | _ \<Rightarrow> Inl TypeError))"

text \<open>\<open>new Date().toISOString().replace("T", " ").substring(0, 19)\<close>\<close>

fun replace_T :: "string \<Rightarrow> string" where
  "replace_T [] = []"
| "replace_T (c # cs) = (if c = CHR ''T'' then CHR '' '' # cs else c # replace_T cs)"

definition timestamp_of :: "string \<Rightarrow> string" where
  "timestamp_of isoString = take 19 (replace_T isoString)"

definition provider_error :: "http_response \<Rightarrow> failure" where
  "provider_error response =
     AppError (str ''Gemini API error: '' @ str (show_nat (http_status response)) @ str '' - ''
               @ text_body response)"

text \<open>What \<open>runSingleEvaluation\<close> of \<open>evaluate\<close> makes of the outcome of its call.\<close>

definition run_of_call :: "(jstring \<Rightarrow> jstring) \<Rightarrow> call \<Rightarrow> jstring \<Rightarrow> failure + RunResult" where
  "run_of_call toLowerCase c expectedOutput =
     (case reply c of
        NetworkFailure \<Rightarrow> Inl NetworkError
      | Replied response \<Rightarrow>
          let latencyMs = endTime c - startTime c
          in if \<not> ok response then Inl (provider_error response)
             else (case json_body response of
                None \<Rightarrow> Inl SyntaxError
              | Some data \<Rightarrow>
                  (case responseText_of data of Inl e \<Rightarrow> Inl e | Inr responseText \<Rightarrow>
                  (case safetyRatings_of data of Inl e \<Rightarrow> Inl e | Inr safetyRatings \<Rightarrow>
                  (case tokenCount_of data of Inl e \<Rightarrow> Inl e | Inr tokenCount \<Rightarrow>
                  (case checkSuccess toLowerCase responseText expectedOutput of
                     Inl e \<Rightarrow> Inl e
                   | Inr succ \<Rightarrow>
                     Inr \<lparr> run_number = 0,
                           response_text = responseText,
                           latency_ms = round2 (of_int latencyMs),
                           token_count = tokenCount,
                           safety_ratings = safetyRatings,
                           success = succ,
                           timestamp = timestamp_of (isoTime c) \<rparr>))))))"

definition runSingleEvaluation ::
  "(jstring \<Rightarrow> jstring) \<Rightarrow> provider \<Rightarrow> jstring \<Rightarrow> jstring \<Rightarrow> string \<Rightarrow> trace
     \<Rightarrow> (failure + RunResult) \<times> trace" where
  "runSingleEvaluation toLowerCase prov task expectedOutput modelName tr =
     (run_of_call toLowerCase (prov (fetches tr)) expectedOutput, tr @ [Fetch modelName task])"

text \<open>The same for \<open>runSingleEvaluation\<close> of \<open>ab-test\<close>: no success check, \<open>success: true\<close>.\<close>

definition ab_run_of_call :: "call \<Rightarrow> failure + RunResult" where
  "ab_run_of_call c =
     (case reply c of
        NetworkFailure \<Rightarrow> Inl NetworkError
      | Replied response \<Rightarrow>
          let latencyMs = endTime c - startTime c
          in if \<not> ok response then Inl (provider_error response)
             else (case json_body response of
                None \<Rightarrow> Inl SyntaxError
              | Some data \<Rightarrow>
                  (case responseText_of data of Inl e \<Rightarrow> Inl e | Inr responseText \<Rightarrow>
                  (case safetyRatings_of data of Inl e \<Rightarrow> Inl e | Inr safetyRatings \<Rightarrow>
                  (case tokenCount_of data of Inl e \<Rightarrow> Inl e | Inr tokenCount \<Rightarrow>
                     Inr \<lparr> run_number = 0,
                           response_text = responseText,
                           latency_ms = round2 (of_int latencyMs),
                           token_count = tokenCount,
                           safety_ratings = safetyRatings,
                           success = True,
                           timestamp = timestamp_of (isoTime c) \<rparr>)))))"

definition runSingleEvaluation_ab ::
  "provider \<Rightarrow> jstring \<Rightarrow> string \<Rightarrow> trace \<Rightarrow> (failure + RunResult) \<times> trace" where
  "runSingleEvaluation_ab prov task modelName tr =
     (ab_run_of_call (prov (fetches tr)), tr @ [Fetch modelName task])"

section \<open>The aggregators\<close>

text \<open>
  Both aggregators collect their runs with the same loop:
  \<^verbatim>\<open>
  for (let i = 0; i < k; i++) {
    const result = await runSingleEvaluation(...);
    result.run_number = i + 1;
    runs.push(result);
    if (i < k - 1) { await new Promise((resolve) => setTimeout(resolve, 500)); }
  }\<close>
  The runner is the parameter \<open>run\<close>. A runner that throws ends the loop: the exception
  leaves the aggregator, and the runs collected so far are dropped with its frame.
\<close>

function run_loop ::
  "(trace \<Rightarrow> (failure + RunResult) \<times> trace) \<Rightarrow> int \<Rightarrow> int \<Rightarrow> RunResult list \<Rightarrow> trace
     \<Rightarrow> (failure + RunResult list) \<times> trace" where
  "run_loop run k i runs tr =
     (if i < k
      then (case run tr of
              (Inl e, tr') \<Rightarrow> (Inl e, tr')
            | (Inr result, tr') \<Rightarrow>
                run_loop run k (i + 1) (runs @ [result\<lparr>run_number := i + 1\<rparr>])
                  (if i < k - 1 then tr' @ [Sleep 500] else tr'))
      else (Inr runs, tr))"
  by pat_completeness auto
termination
  by (relation "measure (\<lambda>(run, k, i, runs, tr). nat (k - i))") auto

declare run_loop.simps [simp del]

record EvaluationResponse =
  pass_at_k :: rat
  average_latency :: rat
  success_rate :: rat
  total_runs :: int
  runs :: "RunResult list"

definition calculatePassAtK ::
  "(jstring \<Rightarrow> jstring) \<Rightarrow> provider \<Rightarrow> jstring \<Rightarrow> jstring \<Rightarrow> int \<Rightarrow> string \<Rightarrow> trace
     \<Rightarrow> (failure + EvaluationResponse) \<times> trace" where
  "calculatePassAtK toLowerCase prov task expectedOutput k modelName tr =
     (case run_loop (runSingleEvaluation toLowerCase prov task expectedOutput modelName) k 0 [] tr of
        (Inl e, tr') \<Rightarrow> (Inl e, tr')
      | (Inr rs, tr') \<Rightarrow>
          let successfulRuns = length (filter success rs);
              passAtK = (if k > 0 then (of_nat successfulRuns / of_int k) * 100 else 0);
              averageLatency = (if k > 0 then sum_list (map latency_ms rs) / of_int k else 0)
          in (Inr \<lparr> pass_at_k = round2 passAtK,
                    average_latency = round2 averageLatency,
                    success_rate = round2 passAtK,
                    total_runs = k,
                    runs = rs \<rparr>, tr'))"

text \<open>The fields \<open>average_latency\<close>, \<open>success_rate\<close> and \<open>runs\<close> of the source's
  \<open>ModelResult\<close> are \<open>model_average_latency\<close>, \<open>model_success_rate\<close> and \<open>model_runs\<close> here:
  \<open>EvaluationResponse\<close> has fields of the same names.\<close>

record ModelResult =
  model_name :: string
  model_average_latency :: rat
  model_success_rate :: rat
  average_tokens :: jsnum
  model_runs :: "RunResult list"

text \<open>\<open>runs.reduce((sum, run) => sum + run.token_count, 0)\<close>\<close>

definition token_sum :: "RunResult list \<Rightarrow> failure + jsval" where
  "token_sum rs =
     foldl (\<lambda>sum run. case sum of Inl e \<Rightarrow> Inl e | Inr s \<Rightarrow> js_add s (token_count run))
       (Inr (JNum 0)) rs"

text \<open>\<open>runs.length > 0 ? runs.reduce(...) / runs.length : 0\<close>\<close>

definition averageTokens_of :: "(jstring \<Rightarrow> jsnum) \<Rightarrow> RunResult list \<Rightarrow> failure + jsnum" where
  "averageTokens_of toNumber rs =
     (if length rs > 0
      then (case token_sum rs of
              Inl e \<Rightarrow> Inl e
            | Inr totalTokens \<Rightarrow>
                map_sum id (\<lambda>n. num_div n (length rs)) (to_number toNumber totalTokens))
      else Inr (Fin 0))"

definition testModel ::
  "provider \<Rightarrow> (jstring \<Rightarrow> jsnum) \<Rightarrow> jstring \<Rightarrow> string \<Rightarrow> string \<Rightarrow> int \<Rightarrow> trace
     \<Rightarrow> (failure + ModelResult) \<times> trace" where
  "testModel prov toNumber task modelId modelDisplayName runsPerModel tr =
     (case run_loop (runSingleEvaluation_ab prov task modelId) runsPerModel 0 [] tr of
        (Inl e, tr') \<Rightarrow> (Inl e, tr')
      | (Inr rs, tr') \<Rightarrow>
          let averageLatency =
                (if length rs > 0 then sum_list (map latency_ms rs) / of_nat (length rs) else 0)
          in (case averageTokens_of toNumber rs of
                Inl e \<Rightarrow> (Inl e, tr')
              | Inr averageTokens \<Rightarrow>
                  (Inr \<lparr> model_name = modelDisplayName,
                          model_average_latency = round2 averageLatency,
                          model_success_rate = 100,
                          average_tokens = num_round2 averageTokens,
                          model_runs = rs \<rparr>, tr')))"

text \<open>The comparison runs \<open>testModel\<close> on three models, in this order.\<close>

definition models :: "(string \<times> string) list" where
  "models =
     [(''gemini-1.5-flash-8b'', ''Gemini 1.5 Flash 8B (Fast)''),
      (''gemini-1.5-flash'', ''Gemini 1.5 Flash (Balanced)''),
      (''gemini-1.5-pro'', ''Gemini 1.5 Pro (Quality)'')]"

text \<open>
  \<^verbatim>\<open>
  for (const [modelId, modelDisplayName] of models) {
    const modelResult = await testModel(body.task, modelId, modelDisplayName, runsPerModel);
    results.push(modelResult);
    await new Promise((resolve) => setTimeout(resolve, 1000));
  }\<close>
\<close>

fun test_models ::
  "provider \<Rightarrow> (jstring \<Rightarrow> jsnum) \<Rightarrow> jstring \<Rightarrow> int \<Rightarrow> (string \<times> string) list
     \<Rightarrow> ModelResult list \<Rightarrow> trace \<Rightarrow> (failure + ModelResult list) \<times> trace" where
  "test_models prov toNumber task runsPerModel [] results tr = (Inr results, tr)"
| "test_models prov toNumber task runsPerModel ((modelId, modelDisplayName) # rest) results tr =
     (case testModel prov toNumber task modelId modelDisplayName runsPerModel tr of
        (Inl e, tr') \<Rightarrow> (Inl e, tr')
      | (Inr modelResult, tr') \<Rightarrow>
          test_models prov toNumber task runsPerModel rest (results @ [modelResult])
            (tr' @ [Sleep 1000]))"

section \<open>The two handlers\<close>

text \<open>
  The request body is the object \<open>req.json()\<close> yields, with the fields the handlers read
  and the types the interfaces \<open>EvaluationRequest\<close> and \<open>ABTestRequest\<close> give them (the
  run counts are integers); a field is \<open>None\<close> when the body has no such field (or has
  \<open>null\<close> there). The field \<open>task\<close> of \<open>ABTestRequest\<close> is \<open>ab_task\<close> here. The provider
  credential \<open>GEMINI_API_KEY\<close> is what \<open>Deno.env.get\<close> returned when the module was loaded.
  The test \<open>!body.task?.trim()\<close> holds when the task is missing or trims to the empty string.
\<close>

record EvaluationRequest =
  task :: "jstring option"
  expected_output :: "jstring option"
  k :: "int option"

record ABTestRequest =
  ab_task :: "jstring option"
  runs_per_model :: "int option"

datatype detail = Text jstring | RuntimeMessage failure

datatype payload =
    NoBody
  | Detail detail
  | Evaluation EvaluationResponse
  | Comparison "ModelResult list"

record Response =
  status :: nat
  payload :: payload

text \<open>\<open>error instanceof Error ? error.message : "An error occurred"\<close>: every failure of the
  model is an \<open>Error\<close>.\<close>

fun message :: "failure \<Rightarrow> detail" where
  "message (AppError m) = Text m"
| "message e = RuntimeMessage e"

text \<open>\<open>!GEMINI_API_KEY\<close>\<close>

fun no_credential :: "string option \<Rightarrow> bool" where
  "no_credential None = True"
| "no_credential (Some key) = (key = [])"

text \<open>\<open>body.k || 3\<close> and \<open>body.runs_per_model || 3\<close>\<close>

fun or_three :: "int option \<Rightarrow> int" where
  "or_three None = 3"
| "or_three (Some n) = (if n \<noteq> 0 then n else 3)"

text \<open>\<open>body.expected_output || ""\<close>\<close>

fun or_empty :: "jstring option \<Rightarrow> jstring" where
  "or_empty None = []"
| "or_empty (Some s) = s"

definition missing_credential :: failure where
  "missing_credential = AppError (str ''GEMINI_API_KEY environment variable is required'')"

definition serve_evaluate ::
  "string option \<Rightarrow> (jstring \<Rightarrow> jstring) \<Rightarrow> provider \<Rightarrow> string \<Rightarrow> EvaluationRequest
     \<Rightarrow> Response \<times> trace" where
  "serve_evaluate GEMINI_API_KEY toLowerCase prov method body =
     (if method = ''OPTIONS'' then (\<lparr> status = 200, payload = NoBody \<rparr>, [])
      else if no_credential GEMINI_API_KEY
        then (\<lparr> status = 500, payload = Detail (message missing_credential) \<rparr>, [])
      else (case task body of
              None \<Rightarrow> (\<lparr> status = 400, payload = Detail (Text (str ''task cannot be empty'')) \<rparr>, [])
            | Some t \<Rightarrow>
                if trim t = []
                then (\<lparr> status = 400, payload = Detail (Text (str ''task cannot be empty'')) \<rparr>, [])
                else let k = or_three (k body)
                  in if k < 1 \<or> k > 10
                     then (\<lparr> status = 400,
                             payload = Detail (Text (str ''k must be between 1 and 10'')) \<rparr>, [])
                     else (case calculatePassAtK toLowerCase prov t (or_empty (expected_output body)) k
                                  ''gemini-1.5-flash'' [] of
                             (Inl e, tr) \<Rightarrow>
                               (\<lparr> status = 500, payload = Detail (message e) \<rparr>, tr)
                           | (Inr result, tr) \<Rightarrow>
                               (\<lparr> status = 200, payload = Evaluation result \<rparr>, tr))))"

definition serve_ab_test ::
  "string option \<Rightarrow> provider \<Rightarrow> (jstring \<Rightarrow> jsnum) \<Rightarrow> string \<Rightarrow> ABTestRequest
     \<Rightarrow> Response \<times> trace" where
  "serve_ab_test GEMINI_API_KEY prov toNumber method body =
     (if method = ''OPTIONS'' then (\<lparr> status = 200, payload = NoBody \<rparr>, [])
      else if no_credential GEMINI_API_KEY
        then (\<lparr> status = 500, payload = Detail (message missing_credential) \<rparr>, [])
      else (case ab_task body of
              None \<Rightarrow> (\<lparr> status = 400, payload = Detail (Text (str ''task cannot be empty'')) \<rparr>, [])
            | Some t \<Rightarrow>
                if trim t = []
                then (\<lparr> status = 400, payload = Detail (Text (str ''task cannot be empty'')) \<rparr>, [])
                else let runsPerModel = or_three (runs_per_model body)
                  in if runsPerModel < 1 \<or> runsPerModel > 10
                     then (\<lparr> status = 400,
                             payload = Detail (Text (str ''runs_per_model must be between 1 and 10'')) \<rparr>,
                           [])
                     else (case test_models prov toNumber t runsPerModel models [] [] of
                             (Inl e, tr) \<Rightarrow>
                               (\<lparr> status = 500, payload = Detail (message e) \<rparr>, tr)
                           | (Inr results, tr) \<Rightarrow>
                               (\<lparr> status = 200, payload = Comparison results \<rparr>, tr))))"

section \<open>Notions of the specification\<close>

text \<open>\<open>y\<close> is \<open>x\<close> rounded to two decimal places: \<open>y\<close> has at most two decimals and is
  at most half a hundredth away from \<open>x\<close>.\<close>

definition two_decimals :: "rat \<Rightarrow> bool" where
  "two_decimals y = (of_int \<lfloor>y * 100\<rfloor> = y * 100)"

definition rounded_to_2_decimals :: "rat \<Rightarrow> rat \<Rightarrow> bool" where
  "rounded_to_2_decimals x y = (two_decimals y \<and> \<bar>y - x\<bar> \<le> 1 / 200)"

definition mean :: "rat list \<Rightarrow> rat" where
  "mean xs = sum_list xs / of_nat (length xs)"

text \<open>A text is blank when it is empty or all white space.\<close>

definition blank :: "jstring \<Rightarrow> bool" where
  "blank s = (\<forall>c\<in>set s. js_whitespace c)"

text \<open>The lower-cased response contains the lower-cased expected output: \<open>lc\<close> is the
  function that lower-cases a text.\<close>

definition contains_lowered :: "(jstring \<Rightarrow> jstring) \<Rightarrow> jstring \<Rightarrow> jstring \<Rightarrow> bool" where
  "contains_lowered lc txt expected = (\<exists>before after. lc txt = before @ lc expected @ after)"

text \<open>Containment that ignores the case of the letters \<open>A\<close> to \<open>Z\<close>: some part of the response
  is the expected output, up to the case of these letters.\<close>

definition ascii_lower :: "16 word \<Rightarrow> 16 word" where
  "ascii_lower c = (if 0x41 \<le> c \<and> c \<le> 0x5A then c + 0x20 else c)"

definition contains_ignoring_case :: "jstring \<Rightarrow> jstring \<Rightarrow> bool" where
  "contains_ignoring_case txt expected =
     (\<exists>before part after. txt = before @ part @ after
        \<and> map ascii_lower part = map ascii_lower expected)"

text \<open>A value the language can turn into text without an exception.\<close>

definition printable :: "jsval \<Rightarrow> bool" where
  "printable v = (case js_to_string v of Inr s \<Rightarrow> True | Inl e \<Rightarrow> False)"

text \<open>Safety ratings the runner can walk through: nothing (a value that counts as false),
  or a list (or a text) whose entries are neither \<open>null\<close> nor \<open>undefined\<close> and have a
  printable \<open>category\<close>.\<close>

definition usable_ratings :: "jsval \<Rightarrow> bool" where
  "usable_ratings ratings =
     (if truthy ratings
      then (case iterate ratings of
              Inr rs \<Rightarrow> list_all (\<lambda>rating. \<not> nullish rating \<and> printable (field ''category'' rating)) rs
            | Inl e \<Rightarrow> False)
      else True)"

section \<open>Example replies\<close>

text \<open>A reply of the provider's documented shape: one candidate with the given text and
  one safety rating, and a usage record of 5 prompt tokens and 7 candidate tokens.\<close>

definition example_data :: "jstring \<Rightarrow> jsval" where
  "example_data txt =
     JObj [(str ''candidates'',
              JArr [JObj [(str ''content'',
                             JObj [(str ''parts'', JArr [JObj [(str ''text'', JStr txt)]])]),
                          (str ''safetyRatings'',
                             JArr [JObj [(str ''category'', JStr (str ''HARM_CATEGORY_HARASSMENT'')),
                                         (str ''probability'', JStr (str ''NEGLIGIBLE''))]])]]),
           (str ''usageMetadata'',
              JObj [(str ''promptTokenCount'', JNum 5), (str ''candidatesTokenCount'', JNum 7)])]"

text \<open>A call answered with status 200 and that reply after \<open>ms\<close> milliseconds, and a
  call answered with an error status.\<close>

definition example_call :: "int \<Rightarrow> jstring \<Rightarrow> call" where
  "example_call ms txt =
     \<lparr> startTime = 1714558830000,
       reply = Replied \<lparr> http_status = 200, text_body = [], json_body = Some (example_data txt) \<rparr>,
       endTime = 1714558830000 + ms,
       isoTime = ''2024-05-01T10:20:30.123Z'' \<rparr>"

definition example_error_call :: "nat \<Rightarrow> jstring \<Rightarrow> call" where
  "example_error_call code body =
     \<lparr> startTime = 1714558830000,
       reply = Replied \<lparr> http_status = code, text_body = body, json_body = None \<rparr>,
       endTime = 1714558830040,
       isoTime = ''2024-05-01T10:20:30.123Z'' \<rparr>"

text \<open>A provider whose calls take 100, 200, 300, 100, ... milliseconds; every third call,
  starting with the second, answers with a text that does not name a diagnosis.\<close>

definition example_provider :: provider where
  "example_provider n =
     example_call (100 * (int (n mod 3) + 1))
       (if n mod 3 = 1 then str ''Patient summary: flu'' else str ''Patient Diagnosis: flu'')"

text \<open>A call answered with status 200 and the body \<open>null\<close>.\<close>

definition null_reply_call :: call where
  "null_reply_call =
     \<lparr> startTime = 1714558830000,
       reply = Replied \<lparr> http_status = 200, text_body = str ''null'', json_body = Some JNull \<rparr>,
       endTime = 1714558830040,
       isoTime = ''2024-05-01T10:20:30.123Z'' \<rparr>"

text \<open>A provider whose second call is answered with status 429.\<close>

definition example_failing_provider :: provider where
  "example_failing_provider n =
     (if n = 1 then example_error_call 429 (str ''quota exceeded'')
      else example_call 100 (str ''Patient Diagnosis: flu''))"

text \<open>
  Two Greek texts: the word \<open>U+039F U+0394 U+039F U+03A3\<close> in capitals, which ends in the
  capital sigma, and the capital sigma alone. \<open>toLowerCase\<close> turns the word into
  \<open>U+03BF U+03B4 U+03BF U+03C2\<close>, with the final form of the small sigma at the end of
  the word, and the letter alone into \<open>U+03C3\<close>, the small sigma. \<open>example_toLowerCase\<close>
  is \<open>toLowerCase\<close> on the texts of the examples: these two, and texts of ASCII characters,
  where only the letters \<open>A\<close> to \<open>Z\<close> change.
\<close>

definition capital_word :: jstring where
  "capital_word = [0x039F, 0x0394, 0x039F, 0x03A3]"

definition capital_sigma :: jstring where
  "capital_sigma = [0x03A3]"

definition example_toLowerCase :: "jstring \<Rightarrow> jstring" where
  "example_toLowerCase s =
     (if s = capital_word then [0x03BF, 0x03B4, 0x03BF, 0x03C2]
      else if s = capital_sigma then [0x03C3]
      else map ascii_lower s)"

text \<open>A reply whose safety entries name the categories \<open>b\<close>, 10, \<open>__proto__\<close>, \<open>2\<close> and
  \<open>b\<close> again, in this order, and a reply that names \<open>__proto__\<close> twice, first with the
  probability \<open>null\<close>.\<close>

definition rating :: "jsval \<Rightarrow> jsval \<Rightarrow> jsval" where
  "rating category probability =
     JObj [(str ''category'', category), (str ''probability'', probability)]"

definition ratings_data :: "jsval list \<Rightarrow> jsval" where
  "ratings_data ratings =
     JObj [(str ''candidates'', JArr [JObj [(str ''safetyRatings'', JArr ratings)]])]"

definition unordered_ratings_data :: jsval where
  "unordered_ratings_data =
     ratings_data
       [rating (JStr (str ''b'')) (JStr (str ''LOW'')),
        rating (JNum 10) (JStr (str ''HIGH'')),
        rating (JStr (str ''__proto__'')) (JStr (str ''MEDIUM'')),
        rating (JStr (str ''2'')) (JStr (str ''LOW'')),
        rating (JStr (str ''b'')) (JStr (str ''NEGLIGIBLE''))]"

definition detached_ratings_data :: jsval where
  "detached_ratings_data =
     ratings_data
       [rating (JStr (str ''__proto__'')) JNull,
        rating (JStr (str ''__proto__'')) (JStr (str ''LOW''))]"

text \<open>Replies that cannot be read: a token count and a rating category that are objects
  with a property \<open>toString\<close> of their own, which is not a function.\<close>

definition unprintable_tokens_data :: jsval where
  "unprintable_tokens_data =
     JObj [(str ''usageMetadata'',
              JObj [(str ''promptTokenCount'', JObj [(str ''toString'', JNum 1)])])]"

definition unprintable_category_data :: jsval where
  "unprintable_category_data =
     ratings_data [rating (JObj [(str ''toString'', JNum 1)]) (JStr (str ''LOW''))]"

section \<open>Properties\<close>

subsection \<open>Strings and rounding\<close>

lemma unit_inject: "(of_nat (of_char a) :: 16 word) = of_nat (of_char b) \<longleftrightarrow> a = b"
proof
  assume eq: "(of_nat (of_char a) :: 16 word) = of_nat (of_char b)"
  have small: "(of_char c :: nat) < 65536" for c
  proof -
    have "(of_char c :: nat) = of_char c mod 256" by simp
    also have "\<dots> < 256" by (rule mod_less_divisor) simp
    finally have "(of_char c :: nat) < 256" .
    then show ?thesis by linarith
  qed
  note a = small[of a] and b = small[of b]
  from eq have "unat (of_nat (of_char a) :: 16 word) = unat (of_nat (of_char b) :: 16 word)"
    by simp
  with a b have "(of_char a :: nat) = of_char b" by (simp add: unat_of_nat)
  then show "a = b" by simp
qed simp

lemma str_inject [simp]: "str a = str b \<longleftrightarrow> a = b"
  unfolding str_def by (rule inj_map_eq_map) (simp add: inj_on_def unit_inject)

lemma str_append: "str (a @ b) = str a @ str b"
  by (simp add: str_def)

lemma trim_empty_iff: "trim s = [] \<longleftrightarrow> (\<forall>c\<in>set s. js_whitespace c)"
proof
  assume "trim s = []"
  then have all: "\<forall>c\<in>set (dropWhile js_whitespace s). js_whitespace c"
    by (simp add: trim_def dropWhile_eq_Nil_conv)
  show "\<forall>c\<in>set s. js_whitespace c"
  proof (cases "dropWhile js_whitespace s")
    case Nil
    then show ?thesis by (simp add: dropWhile_eq_Nil_conv)
  next
    case (Cons y ys)
    then have "\<not> js_whitespace y" using hd_dropWhile[of js_whitespace s] by simp
    with all Cons show ?thesis by simp
  qed
next
  assume "\<forall>c\<in>set s. js_whitespace c"
  then show "trim s = []" unfolding trim_def by (auto dest: set_dropWhileD)
qed

lemma startsWith_iff: "startsWith s p \<longleftrightarrow> (\<exists>suf. s = p @ suf)"
  by (induction s p rule: startsWith.induct) auto

lemma js_includes_iff: "js_includes s p \<longleftrightarrow> (\<exists>pre suf. s = pre @ p @ suf)"
proof (induction s)
  case Nil
  then show ?case by auto
next
  case (Cons c cs)
  show ?case
  proof
    assume "js_includes (c # cs) p"
    then consider "startsWith (c # cs) p" | "js_includes cs p" by auto
    then show "\<exists>pre suf. c # cs = pre @ p @ suf"
    proof cases
      case 1
      then obtain suf where "c # cs = p @ suf" by (auto simp: startsWith_iff)
      then have "c # cs = [] @ p @ suf" by simp
      then show ?thesis by blast
    next
      case 2
      then obtain pre suf where "cs = pre @ p @ suf" using Cons.IH by auto
      then have "c # cs = (c # pre) @ p @ suf" by simp
      then show ?thesis by blast
    qed
  next
    assume "\<exists>pre suf. c # cs = pre @ p @ suf"
    then obtain pre suf where eq: "c # cs = pre @ p @ suf" by blast
    show "js_includes (c # cs) p"
    proof (cases pre)
      case Nil
      with eq have "startsWith (c # cs) p" by (auto simp: startsWith_iff)
      then show ?thesis by simp
    next
      case (Cons a pre')
      with eq have "cs = pre' @ p @ suf" by simp
      then have "js_includes cs p" using Cons.IH by blast
      then show ?thesis by simp
    qed
  qed
qed

lemma round2_of_int: "round2 (of_int n) = of_int n"
proof -
  have "\<lfloor>(of_int n :: rat) * 100 + 1 / 2\<rfloor> = n * 100"
    by linarith
  then show ?thesis by (simp add: round2_def math_round_def)
qed

lemma round2_grid: "of_int \<lfloor>round2 x * 100\<rfloor> = round2 x * 100"
  by (simp add: round2_def)

lemma round2_near: "\<bar>round2 x - x\<bar> \<le> 1 / 200"
proof -
  define n where "n = \<lfloor>x * 100 + 1 / 2\<rfloor>"
  have lo: "of_int n \<le> x * 100 + 1 / 2" unfolding n_def by (rule of_int_floor_le)
  have hi: "x * 100 + 1 / 2 < of_int n + 1" unfolding n_def by linarith
  have r: "round2 x = of_int n / 100" by (simp add: round2_def math_round_def n_def)
  have "\<bar>of_int n - x * 100\<bar> \<le> 1 / 2" using lo hi by linarith
  then have "\<bar>(of_int n - x * 100) / 100\<bar> \<le> (1 / 2) / 100"
    by (simp only: abs_divide) simp
  moreover have "(of_int n - x * 100) / 100 = of_int n / 100 - x" by (simp add: field_simps)
  ultimately show ?thesis unfolding r by simp
qed

subsection \<open>The loop of the aggregators\<close>

lemma fetches_Fetch: "fetches (tr @ [Fetch m t]) = Suc (fetches tr)"
  by (simp add: fetches_def)

lemma fetches_Sleep: "fetches (tr @ [Sleep n]) = fetches tr"
  by (simp add: fetches_def)

lemma fetches_Nil: "fetches [] = 0"
  by (simp add: fetches_def)

lemma run_loop_done: "\<not> i < K \<Longrightarrow> run_loop run K i rs tr = (Inr rs, tr)"
  by (subst run_loop.simps) simp

lemma run_loop_fail:
  "i < K \<Longrightarrow> run tr = (Inl e, tr') \<Longrightarrow> run_loop run K i rs tr = (Inl e, tr')"
  by (subst run_loop.simps) simp

lemma run_loop_step:
  "i < K \<Longrightarrow> run tr = (Inr r, tr') \<Longrightarrow>
   run_loop run K i rs tr =
     run_loop run K (i + 1) (rs @ [r\<lparr>run_number := i + 1\<rparr>])
       (if i < K - 1 then tr' @ [Sleep 500] else tr')"
  by (subst run_loop.simps) simp

lemma run_loop_success:
  "nat (K - i) = n \<Longrightarrow>
   run_loop (\<lambda>tr. (pure (prov (fetches tr)), tr @ [Fetch m t])) K i rs0 tr = (Inr rs, tr') \<Longrightarrow>
   rs = rs0 @ map (\<lambda>j. (projr (pure (prov (fetches tr + j))))\<lparr>run_number := i + 1 + int j\<rparr>) [0..<n]
   \<and> fetches tr' = fetches tr + n
   \<and> (\<forall>j<n. \<exists>r. pure (prov (fetches tr + j)) = Inr r)"
proof (induction n arbitrary: i rs0 tr)
  case 0
  then have "\<not> i < K" by simp
  with 0 show ?case by (simp add: run_loop_done)
next
  case (Suc n)
  let ?R = "\<lambda>tr. (pure (prov (fetches tr)), tr @ [Fetch m t])"
  from Suc.prems have lt: "i < K" by simp
  show ?case
  proof (cases "pure (prov (fetches tr))")
    case (Inl e)
    with lt Suc.prems(2) show ?thesis by (simp add: run_loop_fail)
  next
    case (Inr r)
    let ?tr2 = "if i < K - 1 then (tr @ [Fetch m t]) @ [Sleep 500] else tr @ [Fetch m t]"
    have f2: "fetches ?tr2 = Suc (fetches tr)"
      by (simp add: fetches_Fetch fetches_Sleep del: append_assoc)
    have step: "run_loop ?R K i rs0 tr = run_loop ?R K (i + 1) (rs0 @ [r\<lparr>run_number := i + 1\<rparr>]) ?tr2"
      using lt Inr by (intro run_loop_step) simp_all
    have n: "nat (K - (i + 1)) = n" using Suc.prems(1) by simp
    from Suc.IH[OF n, of "rs0 @ [r\<lparr>run_number := i + 1\<rparr>]" ?tr2] Suc.prems(2) step
    have ih: "rs = (rs0 @ [r\<lparr>run_number := i + 1\<rparr>]) @
                 map (\<lambda>j. (projr (pure (prov (fetches ?tr2 + j))))\<lparr>run_number := i + 1 + 1 + int j\<rparr>) [0..<n]"
      and ft: "fetches tr' = fetches ?tr2 + n"
      and oks: "\<forall>j<n. \<exists>r. pure (prov (fetches ?tr2 + j)) = Inr r"
      by simp_all
    have "rs = rs0 @ map (\<lambda>j. (projr (pure (prov (fetches tr + j))))\<lparr>run_number := i + 1 + int j\<rparr>) [0..<Suc n]"
      unfolding ih f2 map_upt_Suc using Inr by (simp add: add.commute add.left_commute)
    moreover have "fetches tr' = fetches tr + Suc n" using ft f2 by simp
    moreover have "\<forall>j<Suc n. \<exists>r. pure (prov (fetches tr + j)) = Inr r"
    proof (intro allI impI)
      fix j assume "j < Suc n"
      show "\<exists>r. pure (prov (fetches tr + j)) = Inr r"
      proof (cases j)
        case 0
        with Inr show ?thesis by simp
      next
        case (Suc j')
        with \<open>j < Suc n\<close> oks f2 show ?thesis by simp
      qed
    qed
    ultimately show ?thesis by blast
  qed
qed

lemma run_loop_returns:
  "nat (K - i) = n \<Longrightarrow>
   \<forall>j<n. \<exists>r. pure (prov (fetches tr + j)) = Inr r \<Longrightarrow>
   \<exists>rs tr'. run_loop (\<lambda>tr. (pure (prov (fetches tr)), tr @ [Fetch m t])) K i rs0 tr = (Inr rs, tr')"
proof (induction n arbitrary: i rs0 tr)
  case 0
  then have "\<not> i < K" by simp
  then show ?case by (simp add: run_loop_done)
next
  case (Suc n)
  let ?R = "\<lambda>tr. (pure (prov (fetches tr)), tr @ [Fetch m t])"
  from Suc.prems have lt: "i < K" by simp
  from Suc.prems(2) obtain r where r: "pure (prov (fetches tr)) = Inr r" by force
  let ?tr2 = "if i < K - 1 then (tr @ [Fetch m t]) @ [Sleep 500] else tr @ [Fetch m t]"
  have f2: "fetches ?tr2 = Suc (fetches tr)"
    by (simp add: fetches_Fetch fetches_Sleep del: append_assoc)
  have step: "run_loop ?R K i rs0 tr = run_loop ?R K (i + 1) (rs0 @ [r\<lparr>run_number := i + 1\<rparr>]) ?tr2"
    using lt r by (intro run_loop_step) simp_all
  have n: "nat (K - (i + 1)) = n" using Suc.prems(1) by simp
  have "\<forall>j<n. \<exists>r. pure (prov (fetches ?tr2 + j)) = Inr r"
  proof (intro allI impI)
    fix j assume "j < n"
    then have "Suc j < Suc n" by simp
    with Suc.prems(2) have "\<exists>r. pure (prov (fetches tr + Suc j)) = Inr r" by blast
    then show "\<exists>r. pure (prov (fetches ?tr2 + j)) = Inr r" unfolding f2 by simp
  qed
  from Suc.IH[OF n this] show ?case unfolding step .
qed

lemma run_loop_aborts:
  "j < nat (K - i) \<Longrightarrow>
   \<forall>j'<j. \<exists>r. pure (prov (fetches tr + j')) = Inr r \<Longrightarrow>
   pure (prov (fetches tr + j)) = Inl e \<Longrightarrow>
   \<exists>tr'. run_loop (\<lambda>tr. (pure (prov (fetches tr)), tr @ [Fetch m t])) K i rs0 tr = (Inl e, tr')
         \<and> fetches tr' = fetches tr + j + 1"
proof (induction j arbitrary: i rs0 tr)
  case 0
  then have lt: "i < K" by simp
  from 0 have "pure (prov (fetches tr)) = Inl e" by simp
  with lt have "run_loop (\<lambda>tr. (pure (prov (fetches tr)), tr @ [Fetch m t])) K i rs0 tr
                  = (Inl e, tr @ [Fetch m t])"
    by (intro run_loop_fail) simp_all
  then show ?case by (simp add: fetches_Fetch)
next
  case (Suc j)
  let ?R = "\<lambda>tr. (pure (prov (fetches tr)), tr @ [Fetch m t])"
  from Suc.prems have lt: "i < K" by simp
  from Suc.prems(2) obtain r where r: "pure (prov (fetches tr)) = Inr r" by force
  let ?tr2 = "if i < K - 1 then (tr @ [Fetch m t]) @ [Sleep 500] else tr @ [Fetch m t]"
  have f2: "fetches ?tr2 = Suc (fetches tr)"
    by (simp add: fetches_Fetch fetches_Sleep del: append_assoc)
  have step: "run_loop ?R K i rs0 tr = run_loop ?R K (i + 1) (rs0 @ [r\<lparr>run_number := i + 1\<rparr>]) ?tr2"
    using lt r by (intro run_loop_step) simp_all
  have j: "j < nat (K - (i + 1))" using Suc.prems(1) by simp
  have oks: "\<forall>j'<j. \<exists>r. pure (prov (fetches ?tr2 + j')) = Inr r"
  proof (intro allI impI)
    fix j' assume "j' < j"
    then have "Suc j' < Suc j" by simp
    with Suc.prems(2) have "\<exists>r. pure (prov (fetches tr + Suc j')) = Inr r" by blast
    then show "\<exists>r. pure (prov (fetches ?tr2 + j')) = Inr r" unfolding f2 by simp
  qed
  have bad: "pure (prov (fetches ?tr2 + j)) = Inl e" using Suc.prems(3) unfolding f2 by simp
  from Suc.IH[OF j oks bad, of "rs0 @ [r\<lparr>run_number := i + 1\<rparr>]"]
  show ?case unfolding step f2 by simp
qed

subsection \<open>The single-model aggregator\<close>

lemma runSingleEvaluation_eq:
  "runSingleEvaluation lc prov t e m = (\<lambda>tr. (run_of_call lc (prov (fetches tr)) e, tr @ [Fetch m t]))"
  by (rule ext) (simp add: runSingleEvaluation_def)

lemma runSingleEvaluation_ab_eq:
  "runSingleEvaluation_ab prov t m = (\<lambda>tr. (ab_run_of_call (prov (fetches tr)), tr @ [Fetch m t]))"
  by (rule ext) (simp add: runSingleEvaluation_ab_def)

lemma map_succ_upt: "map (\<lambda>j. 1 + int j) [0..<n] = [1..int n]"
proof (induction n)
  case 0
  show ?case by simp
next
  case (Suc n)
  have "[1..1 + int n] = [1..int n] @ [1 + int n]"
    using upto_rec2[of 1 "1 + int n"] by simp
  with Suc show ?case by simp
qed

lemma upto_nat: "[1..int (nat K)] = [1..K]"
  by (cases "0 \<le> K") simp_all

text \<open>What a returned evaluation consists of.\<close>

lemma calculatePassAtK_Inr:
  assumes "calculatePassAtK lc prov t e K m tr = (Inr res, tr')"
  shows "runs res = map (\<lambda>j. (projr (run_of_call lc (prov (fetches tr + j)) e))\<lparr>run_number := 1 + int j\<rparr>)
                       [0..<nat K]"
    and "total_runs res = K"
    and "fetches tr' = fetches tr + nat K"
    and "\<forall>j<nat K. \<exists>r. run_of_call lc (prov (fetches tr + j)) e = Inr r"
    and "pass_at_k res =
           round2 (if K > 0 then of_nat (length (filter success (runs res))) / of_int K * 100 else 0)"
    and "success_rate res = pass_at_k res"
    and "average_latency res =
           round2 (if K > 0 then sum_list (map latency_ms (runs res)) / of_int K else 0)"
proof -
  obtain rs where loop:
      "run_loop (runSingleEvaluation lc prov t e m) K 0 [] tr = (Inr rs, tr')"
    and res: "res = \<lparr> pass_at_k = round2 (if K > 0 then (of_nat (length (filter success rs)) / of_int K) * 100 else 0),
                      average_latency = round2 (if K > 0 then sum_list (map latency_ms rs) / of_int K else 0),
                      success_rate = round2 (if K > 0 then (of_nat (length (filter success rs)) / of_int K) * 100 else 0),
                      total_runs = K, runs = rs \<rparr>"
    using assms
    by (auto simp: calculatePassAtK_def Let_def split: prod.splits sum.splits)
  from run_loop_success[where pure = "\<lambda>c. run_of_call lc c e" and prov = prov and m = m and t = t
      and K = K and i = 0 and ?rs0.0 = "[]" and tr = tr and rs = rs and tr' = tr', OF refl]
    loop[unfolded runSingleEvaluation_eq]
  have rs: "rs = map (\<lambda>j. (projr (run_of_call lc (prov (fetches tr + j)) e))\<lparr>run_number := 0 + 1 + int j\<rparr>) [0..<nat (K - 0)]"
    and ft: "fetches tr' = fetches tr + nat (K - 0)"
    and oks: "\<forall>j<nat (K - 0). \<exists>r. run_of_call lc (prov (fetches tr + j)) e = Inr r"
    by simp_all
  show "runs res = map (\<lambda>j. (projr (run_of_call lc (prov (fetches tr + j)) e))\<lparr>run_number := 1 + int j\<rparr>)
                       [0..<nat K]"
    using rs res by simp
  show "total_runs res = K" using res by simp
  show "fetches tr' = fetches tr + nat K" using ft by simp
  show "\<forall>j<nat K. \<exists>r. run_of_call lc (prov (fetches tr + j)) e = Inr r" using oks by simp
  show "pass_at_k res =
           round2 (if K > 0 then of_nat (length (filter success (runs res))) / of_int K * 100 else 0)"
    using res by simp
  show "success_rate res = pass_at_k res" using res by simp
  show "average_latency res =
           round2 (if K > 0 then sum_list (map latency_ms (runs res)) / of_int K else 0)"
    using res by simp
qed

lemma calculatePassAtK_returns:
  assumes "\<forall>j<nat K. \<exists>r. run_of_call lc (prov (fetches tr + j)) e = Inr r"
  shows "\<exists>res tr'. calculatePassAtK lc prov t e K m tr = (Inr res, tr')"
proof -
  have "nat (K - 0) = nat K" by simp
  from run_loop_returns[where pure = "\<lambda>c. run_of_call lc c e" and prov = prov and m = m and t = t
      and K = K and i = 0 and ?rs0.0 = "[]" and tr = tr, OF this] assms
  obtain rs tr' where "run_loop (runSingleEvaluation lc prov t e m) K 0 [] tr = (Inr rs, tr')"
    unfolding runSingleEvaluation_eq by blast
  then show ?thesis by (simp add: calculatePassAtK_def Let_def)
qed

lemma run_of_call_number: "run_of_call lc c e = Inr r \<Longrightarrow> run_number r = 0"
  by (auto simp: run_of_call_def Let_def split: reply.splits option.splits sum.splits if_splits)

lemma example_run_plain:
  "run_of_call example_toLowerCase (example_call 250 (str ''Patient Diagnosis: flu'')) [] =
     Inr \<lparr> run_number = 0, response_text = JStr (str ''Patient Diagnosis: flu''),
           latency_ms = 250, token_count = JNum 12,
           safety_ratings = [(str ''HARM_CATEGORY_HARASSMENT'', JStr (str ''NEGLIGIBLE''))],
           success = True, timestamp = ''2024-05-01 10:20:30'' \<rparr>"
  by code_simp

lemma round2_rounded: "rounded_to_2_decimals x (round2 x)"
  unfolding rounded_to_2_decimals_def two_decimals_def
  using round2_grid[of x] round2_near[of x] by blast

subsection \<open>Token counts are primitive values\<close>

lemma to_primitive_printable:
  "to_primitive v = Inr v \<Longrightarrow> \<exists>s. js_to_string v = Inr s"
  by (cases v; cases "js_to_string v") auto

lemma to_primitive_is_primitive:
  "to_primitive v = Inr p \<Longrightarrow> to_primitive p = Inr p"
  by (cases v; cases "js_to_string v") auto

lemma js_add_primitive: "js_add a b = Inr v \<Longrightarrow> to_primitive v = Inr v"
  by (auto simp: js_add_def split: sum.splits if_splits option.splits prod.splits)

lemma js_add_returns:
  assumes "to_primitive a = Inr pa" and "to_primitive b = Inr pb"
  shows "\<exists>v. js_add a b = Inr v"
proof -
  from to_primitive_printable[OF to_primitive_is_primitive[OF assms(1)]]
  obtain sa where sa: "js_to_string pa = Inr sa" by blast
  from to_primitive_printable[OF to_primitive_is_primitive[OF assms(2)]]
  obtain sb where sb: "js_to_string pb = Inr sb" by blast
  from assms sa sb show ?thesis by (simp add: js_add_def)
qed

lemma tokenCount_of_primitive: "tokenCount_of data = Inr v \<Longrightarrow> to_primitive v = Inr v"
  by (auto simp: tokenCount_of_def dest: js_add_primitive split: sum.splits)

lemma ab_run_of_call_tokens:
  "ab_run_of_call c = Inr r \<Longrightarrow> to_primitive (token_count r) = Inr (token_count r)"
  by (auto simp: ab_run_of_call_def Let_def dest: tokenCount_of_primitive
      split: reply.splits option.splits sum.splits if_splits)

lemma foldl_token_returns:
  "\<forall>r\<in>set rs. to_primitive (token_count r) = Inr (token_count r) \<Longrightarrow>
   to_primitive a = Inr a \<Longrightarrow>
   \<exists>v. foldl (\<lambda>sum run. case sum of Inl e \<Rightarrow> Inl e | Inr s \<Rightarrow> js_add s (token_count run))
         (Inr a) rs = Inr v \<and> to_primitive v = Inr v"
proof (induction rs arbitrary: a)
  case Nil
  then show ?case by simp
next
  case (Cons r rs)
  from Cons.prems have r: "to_primitive (token_count r) = Inr (token_count r)" by simp
  from js_add_returns[OF Cons.prems(2) r] obtain v where v: "js_add a (token_count r) = Inr v"
    by blast
  from Cons.IH[OF _ js_add_primitive[OF v]] Cons.prems(1) v show ?case by simp
qed

lemma to_number_returns: "to_primitive v = Inr v \<Longrightarrow> \<exists>n. to_number toNumber v = Inr n"
  by (cases v; cases "js_to_string v") auto

lemma averageTokens_of_returns:
  assumes "\<forall>r\<in>set rs. to_primitive (token_count r) = Inr (token_count r)"
  shows "\<exists>a. averageTokens_of toNumber rs = Inr a"
proof -
  have "to_primitive (JNum 0) = Inr (JNum 0)" by simp
  from foldl_token_returns[OF assms this] obtain v where
    v: "token_sum rs = Inr v" and p: "to_primitive v = Inr v"
    unfolding token_sum_def by blast
  from to_number_returns[OF p] obtain n where "to_number toNumber v = Inr n" by blast
  with v show ?thesis by (simp add: averageTokens_of_def)
qed

subsection \<open>The multi-model aggregator, latencies, and the example replies\<close>

lemma testModel_Inr:
  assumes "testModel prov toNumber t mid name R tr = (Inr mres, tr')"
  shows "model_runs mres = map (\<lambda>j. (projr (ab_run_of_call (prov (fetches tr + j))))\<lparr>run_number := 1 + int j\<rparr>)
                       [0..<nat R]"
    and "model_name mres = name"
    and "model_success_rate mres = 100"
    and "fetches tr' = fetches tr + nat R"
    and "\<forall>j<nat R. \<exists>r. ab_run_of_call (prov (fetches tr + j)) = Inr r"
    and "model_average_latency mres =
           round2 (if length (model_runs mres) > 0
                   then sum_list (map latency_ms (model_runs mres)) / of_nat (length (model_runs mres))
                   else 0)"
    and "\<exists>a. averageTokens_of toNumber (model_runs mres) = Inr a \<and> average_tokens mres = num_round2 a"
proof -
  obtain rs a where loop:
      "run_loop (runSingleEvaluation_ab prov t mid) R 0 [] tr = (Inr rs, tr')"
    and avg: "averageTokens_of toNumber rs = Inr a"
    and res: "mres = \<lparr> model_name = name,
        model_average_latency =
          round2 (if length rs > 0 then sum_list (map latency_ms rs) / of_nat (length rs) else 0),
        model_success_rate = 100,
        average_tokens = num_round2 a,
        model_runs = rs \<rparr>"
    using assms
    by (auto simp: testModel_def Let_def split: prod.splits sum.splits)
  from run_loop_success[where pure = ab_run_of_call and prov = prov and m = mid and t = t
      and K = R and i = 0 and ?rs0.0 = "[]" and tr = tr and rs = rs and tr' = tr', OF refl]
    loop[unfolded runSingleEvaluation_ab_eq]
  have rs: "rs = map (\<lambda>j. (projr (ab_run_of_call (prov (fetches tr + j))))\<lparr>run_number := 0 + 1 + int j\<rparr>) [0..<nat (R - 0)]"
    and ft: "fetches tr' = fetches tr + nat (R - 0)"
    and oks: "\<forall>j<nat (R - 0). \<exists>r. ab_run_of_call (prov (fetches tr + j)) = Inr r"
    by simp_all
  show "model_runs mres = map (\<lambda>j. (projr (ab_run_of_call (prov (fetches tr + j))))\<lparr>run_number := 1 + int j\<rparr>)
                       [0..<nat R]"
    using rs res by simp
  show "model_name mres = name" using res by simp
  show "model_success_rate mres = 100" using res by simp
  show "fetches tr' = fetches tr + nat R" using ft by simp
  show "\<forall>j<nat R. \<exists>r. ab_run_of_call (prov (fetches tr + j)) = Inr r" using oks by simp
  show "model_average_latency mres =
           round2 (if length (model_runs mres) > 0
                   then sum_list (map latency_ms (model_runs mres)) / of_nat (length (model_runs mres))
                   else 0)"
    using res by simp
  show "\<exists>a. averageTokens_of toNumber (model_runs mres) = Inr a \<and> average_tokens mres = num_round2 a"
    using res avg by simp
qed

lemma testModel_returns:
  assumes "\<forall>j<nat R. \<exists>r. ab_run_of_call (prov (fetches tr + j)) = Inr r"
  shows "\<exists>mres tr'. testModel prov toNumber t mid name R tr = (Inr mres, tr')"
proof -
  have "nat (R - 0) = nat R" by simp
  from run_loop_returns[where pure = ab_run_of_call and prov = prov and m = mid and t = t
      and K = R and i = 0 and ?rs0.0 = "[]" and tr = tr, OF this] assms
  obtain rs tr' where loop: "run_loop (runSingleEvaluation_ab prov t mid) R 0 [] tr = (Inr rs, tr')"
    unfolding runSingleEvaluation_ab_eq by blast
  from run_loop_success[where pure = ab_run_of_call and prov = prov and m = mid and t = t
      and K = R and i = 0 and ?rs0.0 = "[]" and tr = tr and rs = rs and tr' = tr', OF refl]
    loop[unfolded runSingleEvaluation_ab_eq]
  have rs: "rs = map (\<lambda>j. (projr (ab_run_of_call (prov (fetches tr + j))))\<lparr>run_number := 0 + 1 + int j\<rparr>) [0..<nat (R - 0)]"
    by simp
  have "\<forall>r\<in>set rs. to_primitive (token_count r) = Inr (token_count r)"
  proof
    fix r assume "r \<in> set rs"
    then obtain j where j: "j < nat R"
      and r: "r = (projr (ab_run_of_call (prov (fetches tr + j))))\<lparr>run_number := 0 + 1 + int j\<rparr>"
      unfolding rs by auto
    from assms j obtain r0 where r0: "ab_run_of_call (prov (fetches tr + j)) = Inr r0" by blast
    from ab_run_of_call_tokens[OF r0] r r0
    show "to_primitive (token_count r) = Inr (token_count r)" by simp
  qed
  from averageTokens_of_returns[OF this] obtain a where "averageTokens_of toNumber rs = Inr a"
    by blast
  with loop show ?thesis by (simp add: testModel_def Let_def)
qed

lemma round2_of_int_diff: "round2 (of_int a - of_int b) = of_int a - of_int b"
  using round2_of_int[of "a - b"] by simp

lemma run_of_call_latency:
  "run_of_call lc c e = Inr r \<Longrightarrow> latency_ms r = of_int (endTime c - startTime c)"
  by (auto simp: run_of_call_def Let_def round2_of_int_diff
      split: reply.splits option.splits sum.splits if_splits)

lemma ab_run_of_call_latency:
  "ab_run_of_call c = Inr r \<Longrightarrow> latency_ms r = of_int (endTime c - startTime c)"
  by (auto simp: ab_run_of_call_def Let_def round2_of_int_diff
      split: reply.splits option.splits sum.splits if_splits)

lemma ab_run_of_call_success: "ab_run_of_call c = Inr r \<Longrightarrow> success r"
  by (auto simp: ab_run_of_call_def Let_def
      split: reply.splits option.splits sum.splits if_splits)

lemma example_data_text: "responseText_of (example_data txt) = Inr (JStr txt)"
  by (simp add: example_data_def responseText_of_def strict_def opt_def js_or_def)

lemma example_data_safety:
  "safetyRatings_of (example_data txt) = Inr [(str ''HARM_CATEGORY_HARASSMENT'', JStr (str ''NEGLIGIBLE''))]"
  by (simp add: example_data_def safetyRatings_of_def strict_def opt_def set_property_def
      create_property_def array_index_def str_def)

lemma example_data_tokens: "tokenCount_of (example_data txt) = Inr (JNum 12)"
  by (simp add: example_data_def tokenCount_of_def strict_def opt_def js_or_def js_add_def)

lemma example_timestamp: "timestamp_of ''2024-05-01T10:20:30.123Z'' = ''2024-05-01 10:20:30''"
  by (simp add: timestamp_of_def)

lemma example_call_run:
  "run_of_call lc (example_call ms txt) [] =
     Inr \<lparr> run_number = 0, response_text = JStr txt, latency_ms = of_int ms,
           token_count = JNum 12,
           safety_ratings = [(str ''HARM_CATEGORY_HARASSMENT'', JStr (str ''NEGLIGIBLE''))],
           success = True, timestamp = ''2024-05-01 10:20:30'' \<rparr>"
  by (simp add: run_of_call_def example_call_def ok_def example_data_text example_data_safety
      example_data_tokens example_timestamp checkSuccess_def trim_def round2_of_int)

lemma example_call_ab_run:
  "ab_run_of_call (example_call ms txt) =
     Inr \<lparr> run_number = 0, response_text = JStr txt, latency_ms = of_int ms,
           token_count = JNum 12,
           safety_ratings = [(str ''HARM_CATEGORY_HARASSMENT'', JStr (str ''NEGLIGIBLE''))],
           success = True, timestamp = ''2024-05-01 10:20:30'' \<rparr>"
  by (simp add: ab_run_of_call_def example_call_def ok_def example_data_text example_data_safety
      example_data_tokens example_timestamp round2_of_int)

subsection \<open>Sums of token counts\<close>

lemma js_add_numbers: "js_add (JNum a) (JNum b) = Inr (JNum (a + b))"
  by (simp add: js_add_def)

lemma foldl_token_counts:
  "map token_count rs = map JNum cs \<Longrightarrow>
   foldl (\<lambda>sum run. case sum of Inl e \<Rightarrow> Inl e | Inr s \<Rightarrow> js_add s (token_count run))
     (Inr (JNum a)) rs = Inr (JNum (a + sum_list cs))"
proof (induction rs arbitrary: cs a)
  case Nil
  then show ?case by simp
next
  case (Cons r rs)
  then obtain c cs' where cs: "cs = c # cs'" and c: "token_count r = JNum c"
    and rest: "map token_count rs = map JNum cs'"
    by (cases cs) auto
  from Cons.IH[OF rest, of "a + c"] show ?case
    by (simp add: cs c js_add_numbers add.assoc)
qed

lemma token_sum_numbers:
  "map token_count rs = map JNum cs \<Longrightarrow> token_sum rs = Inr (JNum (sum_list cs))"
  using foldl_token_counts[of rs cs 0] by (simp add: token_sum_def)

lemma of_int_sum_list: "(of_int (sum_list cs) :: rat) = sum_list (map of_int cs)"
  by (induction cs) simp_all

subsection \<open>The success check and the evaluate handler\<close>

lemma blank_trim: "blank s \<longleftrightarrow> trim s = []"
  by (simp add: blank_def trim_empty_iff)

lemma summarize_not_blank: "\<not> blank (str ''Summarize'')"
  by code_simp

lemma checkSuccess_blank: "blank e \<Longrightarrow> checkSuccess lc v e = Inr True"
  by (simp add: checkSuccess_def blank_trim)

lemma checkSuccess_text:
  "\<not> blank e \<Longrightarrow> checkSuccess lc (JStr txt) e = Inr (contains_lowered lc txt e)"
  by (simp add: checkSuccess_def blank_trim contains_lowered_def js_includes_iff)

lemma checkSuccess_Inr:
  "\<not> blank e \<Longrightarrow> checkSuccess lc v e = Inr b \<Longrightarrow>
   \<exists>txt. v = JStr txt \<and> b = contains_lowered lc txt e"
  by (cases v) (auto simp: checkSuccess_def blank_trim contains_lowered_def js_includes_iff)

lemma map_contains:
  "(\<exists>before after. map f txt = before @ map f e @ after)
   \<longleftrightarrow> (\<exists>before part after. txt = before @ part @ after \<and> map f part = map f e)"
proof
  assume "\<exists>before after. map f txt = before @ map f e @ after"
  then obtain b a where "map f txt = b @ map f e @ a" by blast
  then have "\<exists>b' r. txt = b' @ r \<and> b = map f b' \<and> map f e @ a = map f r"
    by (simp only: map_eq_append_conv)
  then obtain b' r where t1: "txt = b' @ r" and r: "map f r = map f e @ a" by auto
  from r have "\<exists>m a'. r = m @ a' \<and> map f e = map f m \<and> a = map f a'"
    by (simp only: map_eq_append_conv)
  then obtain m a' where "r = m @ a'" and "map f m = map f e" by auto
  with t1 show "\<exists>before part after. txt = before @ part @ after \<and> map f part = map f e"
    by blast
next
  assume "\<exists>before part after. txt = before @ part @ after \<and> map f part = map f e"
  then obtain b m a where "txt = b @ m @ a" and "map f m = map f e" by blast
  then have "map f txt = map f b @ map f e @ map f a" by simp
  then show "\<exists>before after. map f txt = before @ map f e @ after" by blast
qed

lemma contains_lowered_ascii:
  "lc txt = map ascii_lower txt \<Longrightarrow> lc e = map ascii_lower e \<Longrightarrow>
   contains_lowered lc txt e = contains_ignoring_case txt e"
  unfolding contains_lowered_def contains_ignoring_case_def by (simp add: map_contains)

text \<open>Whatever else a lower-casing function does: if it writes the capital sigma at the
  end of the word as the final small sigma and the capital sigma alone as the small sigma,
  the word does not match the letter.\<close>

lemma final_sigma_mismatch:
  assumes "lc capital_word = [0x03BF, 0x03B4, 0x03BF, 0x03C2]"
    and "lc capital_sigma = [0x03C3]"
  shows "checkSuccess lc (JStr capital_word) capital_sigma = Inr False"
proof -
  have "trim capital_sigma \<noteq> []" by code_simp
  moreover have "\<not> js_includes [0x03BF, 0x03B4, 0x03BF, 0x03C2] [0x03C3 :: 16 word]" by code_simp
  ultimately show ?thesis using assms by (simp add: checkSuccess_def)
qed

lemma run_of_call_success:
  "run_of_call lc c e = Inr r \<Longrightarrow> checkSuccess lc (response_text r) e = Inr (success r)"
  by (auto simp: run_of_call_def Let_def split: reply.splits option.splits sum.splits if_splits)

lemma calculatePassAtK_run:
  assumes "calculatePassAtK lc prov t e K m tr = (Inr res, tr')" and "r \<in> set (runs res)"
  shows "\<exists>c r0 n. run_of_call lc c e = Inr r0 \<and> r = r0\<lparr>run_number := n\<rparr>"
proof -
  from assms(2) obtain j where j: "j < nat K"
    and r: "r = (projr (run_of_call lc (prov (fetches tr + j)) e))\<lparr>run_number := 1 + int j\<rparr>"
    unfolding calculatePassAtK_Inr(1)[OF assms(1)] by auto
  from calculatePassAtK_Inr(4)[OF assms(1)] j obtain r0 where
    "run_of_call lc (prov (fetches tr + j)) e = Inr r0" by blast
  with r show ?thesis by auto
qed

lemma serve_evaluate_Evaluation:
  assumes "serve_evaluate key lc prov meth body = (resp, tr)" and "payload resp = Evaluation res"
  shows "\<exists>t. task body = Some t
           \<and> calculatePassAtK lc prov t (or_empty (expected_output body))
                 (or_three (k body)) ''gemini-1.5-flash'' [] = (Inr res, tr)"
    and "status resp = 200"
    and "1 \<le> or_three (k body)" and "or_three (k body) \<le> 10"
  using assms
  by (auto simp: serve_evaluate_def Let_def split: if_splits prod.splits sum.splits option.splits)

subsection \<open>Reading the reply\<close>

lemma add_ratings_returns:
  "list_all (\<lambda>rating. \<not> nullish rating \<and> printable (field ''category'' rating)) rs \<Longrightarrow>
   \<exists>m. add_ratings rs acc = Inr m"
  by (induction rs arbitrary: acc) (auto simp: strict_def printable_def split: sum.splits)

lemma responseText_of_returns:
  "\<not> nullish data \<Longrightarrow>
   responseText_of data =
     Inr (js_or (opt (field ''text'') (opt first (opt (field ''parts'')
            (opt (field ''content'') (opt first (field ''candidates'' data)))))) (JStr []))"
  by (simp add: responseText_of_def strict_def)

lemma opt_nullish: "nullish v \<Longrightarrow> opt p v = JUndef"
  by (simp add: opt_def)

lemma js_or_nullish: "nullish v \<Longrightarrow> js_or v d = d"
  by (cases v) (simp_all add: js_or_def)

lemma safetyRatings_of_returns:
  assumes "\<not> nullish data"
    and "usable_ratings (opt (field ''safetyRatings'') (opt first (field ''candidates'' data)))"
  shows "\<exists>sr. safetyRatings_of data = Inr sr"
proof (cases "truthy (opt (field ''safetyRatings'') (opt first (field ''candidates'' data)))")
  case False
  with assms(1) show ?thesis by (simp add: safetyRatings_of_def strict_def)
next
  case True
  let ?c = "field ''candidates'' data"
  from True have n1: "\<not> nullish (opt first ?c)"
    by (auto simp: opt_def split: if_splits)
  then have n2: "\<not> nullish ?c" by (auto simp: opt_def split: if_splits)
  from n1 n2 have eq: "opt (field ''safetyRatings'') (opt first ?c) = field ''safetyRatings'' (first ?c)"
    by (simp add: opt_def)
  from assms(2) True obtain rs where it: "iterate (field ''safetyRatings'' (first ?c)) = Inr rs"
    and all: "list_all (\<lambda>rating. \<not> nullish rating \<and> printable (field ''category'' rating)) rs"
    unfolding eq by (auto simp: usable_ratings_def eq split: sum.splits)
  from add_ratings_returns[OF all, of "([], ObjectPrototype)"] obtain m where
    "add_ratings rs ([], ObjectPrototype) = Inr m" by blast
  with assms(1) True n1 n2 it show ?thesis
    by (simp add: safetyRatings_of_def strict_def opt_def)
qed

lemma safetyRatings_of_none:
  assumes "\<not> nullish data"
    and "nullish (opt (field ''safetyRatings'') (opt first (field ''candidates'' data)))
         \<or> opt (field ''safetyRatings'') (opt first (field ''candidates'' data)) = JArr []"
  shows "safetyRatings_of data = Inr []"
proof -
  let ?sr = "opt (field ''safetyRatings'') (opt first (field ''candidates'' data))"
  from assms(2) show ?thesis
  proof
    assume "nullish ?sr"
    then have "\<not> truthy ?sr" by (cases ?sr) simp_all
    with assms(1) show ?thesis by (simp add: safetyRatings_of_def strict_def)
  next
    assume e: "?sr = JArr []"
    then have n1: "\<not> nullish (opt first (field ''candidates'' data))"
      by (auto simp: opt_def split: if_splits)
    then have n2: "\<not> nullish (field ''candidates'' data)" by (auto simp: opt_def split: if_splits)
    from e n1 n2 have "field ''safetyRatings'' (first (field ''candidates'' data)) = JArr []"
      by (simp add: opt_def)
    with assms(1) e n1 n2 show ?thesis
      by (simp add: safetyRatings_of_def strict_def opt_def)
  qed
qed

text \<open>The record lists the numbered categories first, in ascending order, then the others
  as they came; a category named again keeps its place; \<open>__proto__\<close> with a text is
  ignored, and is an ordinary name once the record has lost its prototype.\<close>

lemma safety_record_order:
  "safetyRatings_of unordered_ratings_data =
     Inr [(str ''2'', JStr (str ''LOW'')), (str ''10'', JStr (str ''HIGH'')),
          (str ''b'', JStr (str ''NEGLIGIBLE''))]"
  "safetyRatings_of detached_ratings_data = Inr [(str ''__proto__'', JStr (str ''LOW''))]"
  by code_simp+

lemma tokenCount_of_returns:
  "\<not> nullish data \<Longrightarrow>
   tokenCount_of data =
     js_add (js_or (opt (field ''promptTokenCount'') (field ''usageMetadata'' data)) (JNum 0))
            (js_or (opt (field ''candidatesTokenCount'') (field ''usageMetadata'' data)) (JNum 0))"
  by (simp add: tokenCount_of_def strict_def)

lemma js_or_printable: "printable v \<Longrightarrow> \<exists>p. to_primitive (js_or v (JNum 0)) = Inr p"
  by (cases v; cases "js_to_string v") (auto simp: js_or_def printable_def)

lemma js_or_number: "js_or (JNum a) (JNum 0) = JNum a"
  by (simp add: js_or_def)

subsection \<open>Failures, and the loop over the three models\<close>

lemma testModel_run_success:
  assumes "testModel prov toNumber t mid name R tr = (Inr mres, tr')" and "r \<in> set (model_runs mres)"
  shows "success r"
proof -
  from assms(2) obtain j where j: "j < nat R"
    and r: "r = (projr (ab_run_of_call (prov (fetches tr + j))))\<lparr>run_number := 1 + int j\<rparr>"
    unfolding testModel_Inr(1)[OF assms(1)] by auto
  from testModel_Inr(5)[OF assms(1)] j obtain r0 where
    r0: "ab_run_of_call (prov (fetches tr + j)) = Inr r0" by blast
  with r ab_run_of_call_success[OF r0] show ?thesis by simp
qed

lemma testModel_aborts:
  assumes "j < nat R"
    and "\<forall>j'<j. \<exists>r. ab_run_of_call (prov (fetches tr + j')) = Inr r"
    and "ab_run_of_call (prov (fetches tr + j)) = Inl e"
  shows "\<exists>tr'. testModel prov toNumber t mid name R tr = (Inl e, tr')
               \<and> fetches tr' = fetches tr + j + 1"
proof -
  have "j < nat (R - 0)" using assms(1) by simp
  from run_loop_aborts[where pure = ab_run_of_call and prov = prov and m = mid and t = t
      and K = R and i = 0 and ?rs0.0 = "[]" and tr = tr and j = j and e = e, OF this assms(2,3)]
  obtain tr' where "run_loop (runSingleEvaluation_ab prov t mid) R 0 [] tr = (Inl e, tr')"
    and "fetches tr' = fetches tr + j + 1"
    unfolding runSingleEvaluation_ab_eq by blast
  then show ?thesis by (simp add: testModel_def)
qed

lemma calculatePassAtK_aborts:
  assumes "j < nat K"
    and "\<forall>j'<j. \<exists>r. run_of_call lc (prov (fetches tr + j')) x = Inr r"
    and "run_of_call lc (prov (fetches tr + j)) x = Inl e"
  shows "\<exists>tr'. calculatePassAtK lc prov t x K m tr = (Inl e, tr')
               \<and> fetches tr' = fetches tr + j + 1"
proof -
  have "j < nat (K - 0)" using assms(1) by simp
  from run_loop_aborts[where pure = "\<lambda>c. run_of_call lc c x" and prov = prov and m = m and t = t
      and K = K and i = 0 and ?rs0.0 = "[]" and tr = tr and j = j and e = e, OF this assms(2,3)]
  obtain tr' where "run_loop (runSingleEvaluation lc prov t x m) K 0 [] tr = (Inl e, tr')"
    and "fetches tr' = fetches tr + j + 1"
    unfolding runSingleEvaluation_eq by blast
  then show ?thesis by (simp add: calculatePassAtK_def)
qed

lemma test_models_Inr:
  "test_models prov toNumber t R ms results tr = (Inr out, tr') \<Longrightarrow>
   \<exists>new. out = results @ new \<and> map model_name new = map snd ms
       \<and> (\<forall>m\<in>set new. model_success_rate m = 100 \<and> (\<forall>r\<in>set (model_runs m). success r))
       \<and> fetches tr' = fetches tr + length ms * nat R"
proof (induction ms arbitrary: results tr)
  case Nil
  then show ?case by simp
next
  case (Cons a ms)
  obtain mid name where a: "a = (mid, name)" by (cases a)
  from Cons.prems obtain mres tr1 where
    tm: "testModel prov toNumber t mid name R tr = (Inr mres, tr1)"
    and rest: "test_models prov toNumber t R ms (results @ [mres]) (tr1 @ [Sleep 1000]) = (Inr out, tr')"
    by (auto simp: a split: prod.splits sum.splits)
  from Cons.IH[OF rest] obtain new where new: "out = (results @ [mres]) @ new"
    "map model_name new = map snd ms"
    "\<forall>m\<in>set new. model_success_rate m = 100 \<and> (\<forall>r\<in>set (model_runs m). success r)"
    "fetches tr' = fetches (tr1 @ [Sleep 1000]) + length ms * nat R"
    by blast
  have m1: "model_success_rate mres = 100 \<and> (\<forall>r\<in>set (model_runs mres). success r)"
    using testModel_Inr(3)[OF tm] testModel_run_success[OF tm] by blast
  have "out = results @ (mres # new)" using new(1) by simp
  moreover have "map model_name (mres # new) = map snd (a # ms)"
    using new(2) testModel_Inr(2)[OF tm] by (simp add: a)
  moreover have "\<forall>m\<in>set (mres # new). model_success_rate m = 100 \<and> (\<forall>r\<in>set (model_runs m). success r)"
    using new(3) m1 by simp
  moreover have "fetches tr' = fetches tr + length (a # ms) * nat R"
    using new(4) testModel_Inr(4)[OF tm] by (simp add: fetches_Sleep)
  ultimately show ?case by blast
qed

lemma test_models_returns:
  "\<forall>j<length ms * nat R. \<exists>r. ab_run_of_call (prov (fetches tr + j)) = Inr r \<Longrightarrow>
   \<exists>out tr'. test_models prov toNumber t R ms results tr = (Inr out, tr')"
proof (induction ms arbitrary: results tr)
  case Nil
  then show ?case by simp
next
  case (Cons a ms)
  obtain mid name where a: "a = (mid, name)" by (cases a)
  have "\<forall>j<nat R. \<exists>r. ab_run_of_call (prov (fetches tr + j)) = Inr r"
    using Cons.prems by simp
  from testModel_returns[OF this] obtain mres tr1 where
    tm: "testModel prov toNumber t mid name R tr = (Inr mres, tr1)" by blast
  have f1: "fetches (tr1 @ [Sleep 1000]) = fetches tr + nat R"
    using testModel_Inr(4)[OF tm] by (simp add: fetches_Sleep)
  have "\<forall>j<length ms * nat R. \<exists>r. ab_run_of_call (prov (fetches (tr1 @ [Sleep 1000]) + j)) = Inr r"
  proof (intro allI impI)
    fix j assume "j < length ms * nat R"
    then have "nat R + j < length (a # ms) * nat R" by simp
    with Cons.prems have "\<exists>r. ab_run_of_call (prov (fetches tr + (nat R + j))) = Inr r" by blast
    then show "\<exists>r. ab_run_of_call (prov (fetches (tr1 @ [Sleep 1000]) + j)) = Inr r"
      unfolding f1 by (simp add: add.assoc)
  qed
  from Cons.IH[OF this, of "results @ [mres]"] tm show ?case by (simp add: a)
qed

lemma test_models_aborts:
  "j < length ms * nat R \<Longrightarrow>
   \<forall>j'<j. \<exists>r. ab_run_of_call (prov (fetches tr + j')) = Inr r \<Longrightarrow>
   ab_run_of_call (prov (fetches tr + j)) = Inl e \<Longrightarrow>
   \<exists>tr'. test_models prov toNumber t R ms results tr = (Inl e, tr')
         \<and> fetches tr' = fetches tr + j + 1"
proof (induction ms arbitrary: results tr j)
  case Nil
  then show ?case by simp
next
  case (Cons a ms)
  obtain mid name where a: "a = (mid, name)" by (cases a)
  show ?case
  proof (cases "j < nat R")
    case True
    from testModel_aborts[OF True Cons.prems(2,3), of toNumber t mid name]
    show ?thesis by (auto simp: a)
  next
    case False
    then have "\<forall>j'<nat R. \<exists>r. ab_run_of_call (prov (fetches tr + j')) = Inr r"
      using Cons.prems(2) by simp
    from testModel_returns[OF this] obtain mres tr1 where
      tm: "testModel prov toNumber t mid name R tr = (Inr mres, tr1)" by blast
    have f1: "fetches (tr1 @ [Sleep 1000]) = fetches tr + nat R"
      using testModel_Inr(4)[OF tm] by (simp add: fetches_Sleep)
    have j1: "j - nat R < length ms * nat R" using Cons.prems(1) False by simp
    have oks: "\<forall>j'<j - nat R. \<exists>r. ab_run_of_call (prov (fetches (tr1 @ [Sleep 1000]) + j')) = Inr r"
    proof (intro allI impI)
      fix j' assume "j' < j - nat R"
      then have "nat R + j' < j" by simp
      with Cons.prems(2) have "\<exists>r. ab_run_of_call (prov (fetches tr + (nat R + j'))) = Inr r" by blast
      then show "\<exists>r. ab_run_of_call (prov (fetches (tr1 @ [Sleep 1000]) + j')) = Inr r"
        unfolding f1 by (simp add: add.assoc)
    qed
    have bad: "ab_run_of_call (prov (fetches (tr1 @ [Sleep 1000]) + (j - nat R))) = Inl e"
      using Cons.prems(3) False unfolding f1 by simp
    from Cons.IH[OF j1 oks bad, of "results @ [mres]"] obtain tr' where
      "test_models prov toNumber t R ms (results @ [mres]) (tr1 @ [Sleep 1000]) = (Inl e, tr')"
      and "fetches tr' = fetches (tr1 @ [Sleep 1000]) + (j - nat R) + 1"
      by blast
    with tm f1 False show ?thesis by (simp add: a)
  qed
qed

lemma serve_ab_test_Comparison:
  assumes "serve_ab_test key prov toNumber meth body = (resp, tr)"
    and "payload resp = Comparison ms"
  shows "\<exists>t. ab_task body = Some t
           \<and> test_models prov toNumber t (or_three (runs_per_model body)) models [] []
               = (Inr ms, tr)"
    and "status resp = 200"
  using assms
  by (auto simp: serve_ab_test_def Let_def split: if_splits prod.splits sum.splits option.splits)

lemma serve_ab_test_200:
  assumes "serve_ab_test key prov toNumber meth body = (resp, tr)"
    and "status resp = 200" and "meth \<noteq> ''OPTIONS''"
  shows "\<exists>ms. payload resp = Comparison ms"
  using assms
  by (auto simp: serve_ab_test_def Let_def split: if_splits prod.splits sum.splits option.splits)

subsection \<open>The handlers past their checks\<close>

lemma run_of_call_http_error:
  "reply c = Replied response \<Longrightarrow> \<not> ok response \<Longrightarrow>
   run_of_call lc c e = Inl (provider_error response)"
  by (simp add: run_of_call_def)

lemma ab_run_of_call_http_error:
  "reply c = Replied response \<Longrightarrow> \<not> ok response \<Longrightarrow>
   ab_run_of_call c = Inl (provider_error response)"
  by (simp add: ab_run_of_call_def)

lemma serve_evaluate_runs:
  assumes "\<not> no_credential key" and "meth \<noteq> ''OPTIONS''"
    and "task body = Some t" and "\<not> blank t"
    and "1 \<le> or_three (k body)" and "or_three (k body) \<le> 10"
  shows "serve_evaluate key lc prov meth body =
     (case calculatePassAtK lc prov t (or_empty (expected_output body))
             (or_three (k body)) ''gemini-1.5-flash'' [] of
        (Inl e, tr) \<Rightarrow> (\<lparr> status = 500, payload = Detail (message e) \<rparr>, tr)
      | (Inr result, tr) \<Rightarrow> (\<lparr> status = 200, payload = Evaluation result \<rparr>, tr))"
  using assms by (simp add: serve_evaluate_def Let_def blank_trim)

lemma serve_ab_test_runs:
  assumes "\<not> no_credential key" and "meth \<noteq> ''OPTIONS''"
    and "ab_task body = Some t" and "\<not> blank t"
    and "1 \<le> or_three (runs_per_model body)" and "or_three (runs_per_model body) \<le> 10"
  shows "serve_ab_test key prov toNumber meth body =
     (case test_models prov toNumber t (or_three (runs_per_model body))
             models [] [] of
        (Inl e, tr) \<Rightarrow> (\<lparr> status = 500, payload = Detail (message e) \<rparr>, tr)
      | (Inr results, tr) \<Rightarrow> (\<lparr> status = 200, payload = Comparison results \<rparr>, tr))"
  using assms by (simp add: serve_ab_test_def Let_def blank_trim)

text \<open>A run count outside 1 to 10 other than 0 is rejected with status 400 before any
  provider call (the detail names the task when the task is blank as well).\<close>

lemma nonzero_out_of_range_is_rejected:
  assumes "\<not> no_credential key" and "meth \<noteq> ''OPTIONS''"
    and "n \<noteq> 0" and "n < 1 \<or> n > 10"
  shows "k body = Some n \<Longrightarrow>
           \<exists>d. serve_evaluate key lc prov meth body = (\<lparr> status = 400, payload = Detail d \<rparr>, [])"
    and "runs_per_model ab_body = Some n \<Longrightarrow>
           \<exists>d. serve_ab_test key prov toNumber meth ab_body
                 = (\<lparr> status = 400, payload = Detail d \<rparr>, [])"
  using assms by (auto simp: serve_evaluate_def serve_ab_test_def Let_def split: option.splits)

section \<open>The claims\<close>

text \<open>
  Claim C1 says that every request whose \<open>k\<close> (or \<open>runs_per_model\<close>) lies outside 1 to 10,
  0 and 11 included, is rejected with status 400 before any provider call is made. At 0
  the handlers do otherwise: \<open>body.k || 3\<close> replaces the 0 by the default 3 before the
  range check \<open>k < 1 || k > 10\<close> is reached, so the request is served with status 200:
  three runs and three provider calls in the single evaluation, nine provider calls in
  the comparison.
\<close>

theorem zero_runs_are_served_as_three:
  "(\<exists>res tr.
      serve_evaluate (Some ''secret'') example_toLowerCase example_provider ''POST''
        \<lparr> task = Some (str ''Summarize''), expected_output = None, k = Some 0 \<rparr>
        = (\<lparr> status = 200, payload = Evaluation res \<rparr>, tr)
    \<and> total_runs res = 3 \<and> length (runs res) = 3 \<and> fetches tr = 3)
   \<and> (\<exists>ms tr.
      serve_ab_test (Some ''secret'') example_provider (\<lambda>s. NaN) ''POST''
        \<lparr> ab_task = Some (str ''Summarize''), runs_per_model = Some 0 \<rparr>
        = (\<lparr> status = 200, payload = Comparison ms \<rparr>, tr)
    \<and> length ms = 3 \<and> fetches tr = 9)"
proof (intro conjI)
  have c: "\<not> no_credential (Some ''secret'')" by simp
  have m: "''POST'' \<noteq> ''OPTIONS''" by simp
  have nb: "trim (str ''Summarize'') \<noteq> []"
    using summarize_not_blank by (simp add: blank_trim)
  have "\<forall>j<nat 3. \<exists>r. run_of_call example_toLowerCase (example_provider (fetches [] + j)) [] = Inr r"
    by (simp add: example_provider_def example_call_run)
  from calculatePassAtK_returns[OF this] obtain res tr where
    ret: "calculatePassAtK example_toLowerCase example_provider (str ''Summarize'') [] 3 ''gemini-1.5-flash'' [] = (Inr res, tr)"
    by blast
  have s: "serve_evaluate (Some ''secret'') example_toLowerCase example_provider ''POST''
        \<lparr> task = Some (str ''Summarize''), expected_output = None, k = Some 0 \<rparr>
        = (\<lparr> status = 200, payload = Evaluation res \<rparr>, tr)"
    using nb ret by (simp add: serve_evaluate_def)
  have "total_runs res = 3" "length (runs res) = 3" "fetches tr = 3"
    using calculatePassAtK_Inr(1,2,3)[OF ret] by (simp_all add: fetches_Nil)
  with s show "\<exists>res tr.
      serve_evaluate (Some ''secret'') example_toLowerCase example_provider ''POST''
        \<lparr> task = Some (str ''Summarize''), expected_output = None, k = Some 0 \<rparr>
        = (\<lparr> status = 200, payload = Evaluation res \<rparr>, tr)
    \<and> total_runs res = 3 \<and> length (runs res) = 3 \<and> fetches tr = 3"
    by (intro exI[of _ res] exI[of _ tr]) simp
  have "\<forall>j<length models * nat 3. \<exists>r. ab_run_of_call (example_provider (fetches [] + j)) = Inr r"
    by (simp add: example_provider_def example_call_ab_run)
  from test_models_returns[OF this] obtain ms tr2 where
    tm: "test_models example_provider (\<lambda>s. NaN) (str ''Summarize'') 3 models [] [] = (Inr ms, tr2)"
    by blast
  have s2: "serve_ab_test (Some ''secret'') example_provider (\<lambda>s. NaN) ''POST''
        \<lparr> ab_task = Some (str ''Summarize''), runs_per_model = Some 0 \<rparr>
        = (\<lparr> status = 200, payload = Comparison ms \<rparr>, tr2)"
    using nb tm by (simp add: serve_ab_test_def)
  from test_models_Inr[OF tm] obtain new where "ms = [] @ new" "map model_name new = map snd models"
    and f: "fetches tr2 = fetches [] + length models * nat 3" by blast
  then have "length ms = length models" by (metis append_Nil length_map)
  then have "length ms = 3" "fetches tr2 = 9" using f by (simp_all add: models_def fetches_Nil)
  with s2 show "\<exists>ms tr.
      serve_ab_test (Some ''secret'') example_provider (\<lambda>s. NaN) ''POST''
        \<lparr> ab_task = Some (str ''Summarize''), runs_per_model = Some 0 \<rparr>
        = (\<lparr> status = 200, payload = Comparison ms \<rparr>, tr)
    \<and> length ms = 3 \<and> fetches tr = 9"
    by (intro exI[of _ ms] exI[of _ tr2]) simp
qed

text \<open>
  Claim C2. In every single-evaluation result produced for K runs, \<open>pass_at_k\<close> is the
  number of runs with \<open>success = true\<close>, divided by K, times 100, rounded to two decimal
  places; and \<open>success_rate\<close> equals \<open>pass_at_k\<close>.
\<close>

theorem pass_at_k_is_rounded_share:
  assumes "0 < K" and "calculatePassAtK lc prov t e K m tr = (Inr res, tr')"
  shows "int (length (runs res)) = K
       \<and> pass_at_k res = round2 (of_nat (length (filter success (runs res))) / of_int K * 100)
       \<and> rounded_to_2_decimals (of_nat (length (filter success (runs res))) / of_int K * 100)
            (pass_at_k res)
       \<and> success_rate res = pass_at_k res"
proof -
  have len: "int (length (runs res)) = K"
    using calculatePassAtK_Inr(1)[OF assms(2)] assms(1) by simp
  have p: "pass_at_k res = round2 (of_nat (length (filter success (runs res))) / of_int K * 100)"
    using calculatePassAtK_Inr(5)[OF assms(2)] assms(1) by simp
  have "rounded_to_2_decimals (of_nat (length (filter success (runs res))) / of_int K * 100)
            (pass_at_k res)"
    unfolding p by (rule round2_rounded)
  with len p calculatePassAtK_Inr(6)[OF assms(2)] show ?thesis by simp
qed

theorem pass_at_k_is_rounded_share_witness:
  "\<exists>res tr'. calculatePassAtK example_toLowerCase example_provider (str ''Summarize'') (str ''diagnosis'') 3 ''gemini-1.5-flash'' []
                 = (Inr res, tr')
      \<and> length (filter success (runs res)) = 2
      \<and> pass_at_k res = 6667 / 100
      \<and> success_rate res = 6667 / 100
      \<and> rounded_to_2_decimals (2 / 3 * 100) (6667 / 100)"
proof -
  have "case calculatePassAtK example_toLowerCase example_provider (str ''Summarize'') (str ''diagnosis'') 3 ''gemini-1.5-flash'' [] of
          (Inr res, tr') \<Rightarrow> pass_at_k res = 6667 / 100 \<and> length (filter success (runs res)) = 2
        | (Inl e, tr') \<Rightarrow> False"
    by code_simp
  then obtain res tr' where
    ret: "calculatePassAtK example_toLowerCase example_provider (str ''Summarize'') (str ''diagnosis'') 3 ''gemini-1.5-flash'' []
            = (Inr res, tr')"
    and p: "pass_at_k res = 6667 / 100" and n: "length (filter success (runs res)) = 2"
    by (auto split: prod.splits sum.splits)
  have pos: "(0::int) < 3" by simp
  from pass_at_k_is_rounded_share[OF pos ret] p n
  have "success_rate res = 6667 / 100" and "rounded_to_2_decimals (2 / 3 * 100) (6667 / 100)"
    by simp_all
  with ret p n show ?thesis by blast
qed

text \<open>
  Claim C3. For every K from 1 to 10 and every task, a single-model evaluation returns
  exactly K runs whose \<open>run_number\<close>s are 1, 2, ..., K in this order, and \<open>total_runs\<close> is K.
  The numbers are given by the aggregator: the runner leaves the placeholder 0.
  An evaluation returns when each of its K provider calls yields a run; whenever it
  returns, the result is as stated.
\<close>

theorem single_evaluation_run_numbers:
  assumes "1 \<le> K" and "K \<le> 10"
  shows "((\<forall>j<nat K. \<exists>r. run_of_call lc (prov (fetches tr + j)) e = Inr r)
            \<longrightarrow> (\<exists>res tr'. calculatePassAtK lc prov t e K m tr = (Inr res, tr')))
       \<and> (\<forall>res tr'. calculatePassAtK lc prov t e K m tr = (Inr res, tr')
            \<longrightarrow> int (length (runs res)) = K
              \<and> map run_number (runs res) = [1..K]
              \<and> total_runs res = K)
       \<and> (\<forall>c r. run_of_call lc c e = Inr r \<longrightarrow> run_number r = 0)"
proof (intro conjI allI impI)
  assume "\<forall>j<nat K. \<exists>r. run_of_call lc (prov (fetches tr + j)) e = Inr r"
  then show "\<exists>res tr'. calculatePassAtK lc prov t e K m tr = (Inr res, tr')"
    by (rule calculatePassAtK_returns)
next
  fix res tr'
  assume ret: "calculatePassAtK lc prov t e K m tr = (Inr res, tr')"
  note rs = calculatePassAtK_Inr(1)[OF ret]
  show "int (length (runs res)) = K" using rs assms by simp
  have "map run_number (runs res) = map (\<lambda>j. 1 + int j) [0..<nat K]"
    unfolding rs by (simp add: comp_def)
  then show "map run_number (runs res) = [1..K]"
    by (simp add: map_succ_upt upto_nat)
  show "total_runs res = K" by (rule calculatePassAtK_Inr(2)[OF ret])
next
  fix c r
  assume "run_of_call lc c e = Inr r"
  then show "run_number r = 0" by (rule run_of_call_number)
qed

theorem single_evaluation_run_numbers_witness:
  "\<exists>res tr'. calculatePassAtK example_toLowerCase (\<lambda>n. example_call 250 (str ''Patient Diagnosis: flu'')) (str ''Summarize'')
                 [] 2 ''gemini-1.5-flash'' [] = (Inr res, tr')
      \<and> int (length (runs res)) = 2
      \<and> map run_number (runs res) = [1, 2]
      \<and> total_runs res = 2"
proof -
  let ?prov = "\<lambda>n::nat. example_call 250 (str ''Patient Diagnosis: flu'')"
  have low: "(1::int) \<le> 2" and high: "(2::int) \<le> 10" by simp_all
  note main = single_evaluation_run_numbers[OF low high, of example_toLowerCase ?prov "[]" "[]"
      "str ''Summarize''"
      "''gemini-1.5-flash''"]
  have "\<forall>j<nat 2. \<exists>r. run_of_call example_toLowerCase (?prov (fetches [] + j)) [] = Inr r"
    by (simp add: example_run_plain)
  with main obtain res tr' where
    ret: "calculatePassAtK example_toLowerCase ?prov (str ''Summarize'') [] 2 ''gemini-1.5-flash'' [] = (Inr res, tr')"
    by blast
  with main have "int (length (runs res)) = 2 \<and> map run_number (runs res) = [1..2]
      \<and> total_runs res = 2"
    by blast
  moreover have "[1..2] = [1, 2::int]" by code_simp
  ultimately show ?thesis using ret by auto
qed

text \<open>
  Claim C4, as stated: for every run of a single evaluation, if the expected output is
  not blank, \<open>success\<close> is true exactly when the response text contains the expected
  output, case ignored. It fails outside ASCII. \<open>toLowerCase\<close> writes the capital sigma
  at the end of a word as the final small sigma and the capital sigma that stands alone
  as the plain small sigma: the response \<open>U+039F U+0394 U+039F U+03A3\<close> contains the
  expected output \<open>U+03A3\<close> letter for letter, and the run is marked unsuccessful.
\<close>

theorem lowercase_misses_final_sigma:
  "\<not> blank capital_sigma
   \<and> js_includes capital_word capital_sigma
   \<and> contains_ignoring_case capital_word capital_sigma
   \<and> example_toLowerCase capital_word = [0x03BF, 0x03B4, 0x03BF, 0x03C2]
   \<and> example_toLowerCase capital_sigma = [0x03C3]
   \<and> checkSuccess example_toLowerCase (JStr capital_word) capital_sigma = Inr False
   \<and> (\<exists>resp tr res.
         serve_evaluate (Some ''secret'') example_toLowerCase (\<lambda>n. example_call 100 capital_word)
           ''POST''
           \<lparr> task = Some (str ''Summarize''), expected_output = Some capital_sigma, k = Some 1 \<rparr>
           = (resp, tr)
       \<and> payload resp = Evaluation res
       \<and> map response_text (runs res) = [JStr capital_word]
       \<and> map success (runs res) = [False])"
proof -
  have nb: "\<not> blank capital_sigma" by code_simp
  have inc: "js_includes capital_word capital_sigma" by code_simp
  have "capital_word = [0x039F, 0x0394, 0x039F] @ capital_sigma @ []"
    by (simp add: capital_word_def capital_sigma_def)
  then have cic: "contains_ignoring_case capital_word capital_sigma"
    unfolding contains_ignoring_case_def by blast
  have w: "example_toLowerCase capital_word = [0x03BF, 0x03B4, 0x03BF, 0x03C2]" by code_simp
  have s: "example_toLowerCase capital_sigma = [0x03C3]" by code_simp
  have no: "checkSuccess example_toLowerCase (JStr capital_word) capital_sigma = Inr False"
    by code_simp
  have "case serve_evaluate (Some ''secret'') example_toLowerCase
               (\<lambda>n. example_call 100 capital_word) ''POST''
               \<lparr> task = Some (str ''Summarize''), expected_output = Some capital_sigma,
                 k = Some 1 \<rparr> of
          (resp, tr) \<Rightarrow> (case payload resp of
             Evaluation res \<Rightarrow> map response_text (runs res) = [JStr capital_word]
                \<and> map success (runs res) = [False]
           | _ \<Rightarrow> False)"
    by code_simp
  then have run: "\<exists>resp tr res.
         serve_evaluate (Some ''secret'') example_toLowerCase (\<lambda>n. example_call 100 capital_word)
           ''POST''
           \<lparr> task = Some (str ''Summarize''), expected_output = Some capital_sigma, k = Some 1 \<rparr>
           = (resp, tr)
       \<and> payload resp = Evaluation res
       \<and> map response_text (runs res) = [JStr capital_word]
       \<and> map success (runs res) = [False]"
    by (auto split: prod.splits payload.splits)
  from nb inc cic w s no run show ?thesis by (intro conjI)
qed

text \<open>
  Claim C4, amended: for every run of a single evaluation, if the expected output is
  empty, all white space, or omitted, the run's \<open>success\<close> is true whatever the response
  text is; otherwise \<open>success\<close> is true exactly when the response text, lower-cased by
  \<open>toLowerCase\<close>, contains the expected output lower-cased by \<open>toLowerCase\<close>. This holds
  whatever function \<open>toLowerCase\<close> is. Where \<open>toLowerCase\<close> changes nothing but the letters
  \<open>A\<close> to \<open>Z\<close>, as in texts of ASCII characters, this is containment that ignores the case
  of these letters: expected \<open>diagnosis\<close> matches the response \<open>Patient Diagnosis: flu\<close>
  and does not match \<open>Patient summary: flu\<close>.
\<close>

theorem success_is_containment_of_lowered_text:
  "(blank e \<longrightarrow> checkSuccess lc v e = Inr True)
   \<and> (\<not> blank e \<longrightarrow> checkSuccess lc (JStr txt) e = Inr (contains_lowered lc txt e))
   \<and> (\<not> blank e \<and> lc txt = map ascii_lower txt \<and> lc e = map ascii_lower e
        \<longrightarrow> checkSuccess lc (JStr txt) e = Inr (contains_ignoring_case txt e))
   \<and> (\<forall>resp tr res. serve_evaluate key lc prov meth body = (resp, tr)
          \<and> payload resp = Evaluation res
        \<longrightarrow> (\<forall>r\<in>set (runs res).
               (case expected_output body of
                  None \<Rightarrow> success r
                | Some x \<Rightarrow>
                    if blank x then success r
                    else (\<exists>t. response_text r = JStr t \<and> success r = contains_lowered lc t x))))"
proof (intro conjI allI impI ballI)
  assume "blank e" then show "checkSuccess lc v e = Inr True" by (rule checkSuccess_blank)
next
  assume "\<not> blank e"
  then show "checkSuccess lc (JStr txt) e = Inr (contains_lowered lc txt e)"
    by (rule checkSuccess_text)
next
  assume a: "\<not> blank e \<and> lc txt = map ascii_lower txt \<and> lc e = map ascii_lower e"
  then have "contains_lowered lc txt e = contains_ignoring_case txt e"
    by (intro contains_lowered_ascii) simp_all
  with a show "checkSuccess lc (JStr txt) e = Inr (contains_ignoring_case txt e)"
    by (simp add: checkSuccess_text)
next
  fix resp tr res r
  assume a: "serve_evaluate key lc prov meth body = (resp, tr) \<and> payload resp = Evaluation res"
    and r: "r \<in> set (runs res)"
  let ?e = "or_empty (expected_output body)"
  from a have a1: "serve_evaluate key lc prov meth body = (resp, tr)"
    and a2: "payload resp = Evaluation res" by simp_all
  from serve_evaluate_Evaluation(1)[OF a1 a2] obtain t where
    "calculatePassAtK lc prov t ?e (or_three (k body)) ''gemini-1.5-flash'' [] = (Inr res, tr)"
    by blast
  from calculatePassAtK_run[OF this r] obtain c r0 n where
    r0: "run_of_call lc c ?e = Inr r0" and rr: "r = r0\<lparr>run_number := n\<rparr>" by blast
  have cs: "checkSuccess lc (response_text r) ?e = Inr (success r)"
    using run_of_call_success[OF r0] rr by simp
  show "case expected_output body of
          None \<Rightarrow> success r
        | Some x \<Rightarrow>
            if blank x then success r
            else (\<exists>t. response_text r = JStr t \<and> success r = contains_lowered lc t x)"
  proof (cases "expected_output body")
    case None
    then have "blank ?e" by (simp add: blank_def)
    from checkSuccess_blank[OF this] cs show ?thesis using None by simp
  next
    case (Some x)
    show ?thesis
    proof (cases "blank x")
      case True
      with Some checkSuccess_blank[of x lc "response_text r"] cs show ?thesis by simp
    next
      case False
      with Some checkSuccess_Inr[of x lc "response_text r" "success r"] cs show ?thesis by simp
    qed
  qed
qed

theorem success_is_containment_of_lowered_text_witness:
  "\<not> blank (str ''diagnosis'')
   \<and> checkSuccess example_toLowerCase (JStr (str ''Patient Diagnosis: flu'')) (str ''diagnosis'')
       = Inr True
   \<and> contains_lowered example_toLowerCase (str ''Patient Diagnosis: flu'') (str ''diagnosis'')
   \<and> contains_ignoring_case (str ''Patient Diagnosis: flu'') (str ''diagnosis'')
   \<and> checkSuccess example_toLowerCase (JStr (str ''Patient summary: flu'')) (str ''diagnosis'')
       = Inr False
   \<and> \<not> contains_lowered example_toLowerCase (str ''Patient summary: flu'') (str ''diagnosis'')
   \<and> \<not> contains_ignoring_case (str ''Patient summary: flu'') (str ''diagnosis'')
   \<and> blank [0x20, 0x09]
   \<and> checkSuccess example_toLowerCase (JStr (str ''Patient summary: flu'')) [0x20, 0x09] = Inr True
   \<and> (\<exists>resp tr res.
         serve_evaluate (Some ''secret'') example_toLowerCase example_provider ''POST''
           \<lparr> task = Some (str ''Summarize''), expected_output = Some (str ''diagnosis''),
             k = Some 3 \<rparr>
           = (resp, tr)
       \<and> payload resp = Evaluation res
       \<and> map success (runs res) = [True, False, True])"
proof -
  let ?lc = example_toLowerCase
  let ?yes = "str ''Patient Diagnosis: flu''"
  let ?no = "str ''Patient summary: flu''"
  let ?e = "str ''diagnosis''"
  have nb: "\<not> blank ?e" by code_simp
  have b: "blank [0x20, 0x09]" by code_simp
  have le: "?lc ?e = map ascii_lower ?e" by code_simp
  have ly: "?lc ?yes = map ascii_lower ?yes" by code_simp
  have ln: "?lc ?no = map ascii_lower ?no" by code_simp
  have yes: "checkSuccess ?lc (JStr ?yes) ?e = Inr True" by code_simp
  have no: "checkSuccess ?lc (JStr ?no) ?e = Inr False" by code_simp
  note y = success_is_containment_of_lowered_text[of ?e ?lc JNull ?yes]
  note n = success_is_containment_of_lowered_text[of ?e ?lc JNull ?no]
  from y nb yes have c1: "contains_lowered ?lc ?yes ?e" by simp
  from y nb le ly yes have c2: "contains_ignoring_case ?yes ?e" by simp
  from n nb no have c3: "\<not> contains_lowered ?lc ?no ?e" by simp
  from n nb le ln no have c4: "\<not> contains_ignoring_case ?no ?e" by simp
  from success_is_containment_of_lowered_text[of "[0x20, 0x09]" ?lc "JStr ?no"] b
  have c5: "checkSuccess ?lc (JStr ?no) [0x20, 0x09] = Inr True" by simp
  have "case serve_evaluate (Some ''secret'') example_toLowerCase example_provider ''POST''
           \<lparr> task = Some (str ''Summarize''), expected_output = Some (str ''diagnosis''),
             k = Some 3 \<rparr> of
          (resp, tr) \<Rightarrow> (case payload resp of
             Evaluation res \<Rightarrow> map success (runs res) = [True, False, True] | _ \<Rightarrow> False)"
    by code_simp
  then have c6: "\<exists>resp tr res.
         serve_evaluate (Some ''secret'') example_toLowerCase example_provider ''POST''
           \<lparr> task = Some (str ''Summarize''), expected_output = Some (str ''diagnosis''),
             k = Some 3 \<rparr>
           = (resp, tr)
       \<and> payload resp = Evaluation res
       \<and> map success (runs res) = [True, False, True]"
    by (auto split: prod.splits payload.splits)
  from nb yes c1 c2 no c3 c4 b c5 c6 show ?thesis by (intro conjI)
qed

text \<open>
  Claim C5. Every successful comparison response holds exactly three model results, in
  the fixed order fast, balanced, quality, whatever \<open>runs_per_model\<close> is, and every entry's
  \<open>success_rate\<close> is 100: no success criterion is applied to comparison runs, each of which
  is marked successful. A response with status 200 to a request that is not a preflight
  is such a response.
\<close>

theorem comparison_has_three_models:
  assumes "serve_ab_test key prov toNumber meth body = (resp, tr)"
  shows "(status resp = 200 \<and> meth \<noteq> ''OPTIONS'' \<longrightarrow> (\<exists>ms. payload resp = Comparison ms))
       \<and> (\<forall>ms. payload resp = Comparison ms \<longrightarrow>
             status resp = 200
           \<and> length ms = 3
           \<and> map model_name ms =
               [''Gemini 1.5 Flash 8B (Fast)'', ''Gemini 1.5 Flash (Balanced)'',
                ''Gemini 1.5 Pro (Quality)'']
           \<and> (\<forall>m\<in>set ms. model_success_rate m = 100 \<and> (\<forall>r\<in>set (model_runs m). success r)))"
proof (intro conjI allI impI ballI)
  assume "status resp = 200 \<and> meth \<noteq> ''OPTIONS''"
  then show "\<exists>ms. payload resp = Comparison ms"
    using serve_ab_test_200[OF assms] by blast
next
  fix ms
  assume p: "payload resp = Comparison ms"
  show "status resp = 200" by (rule serve_ab_test_Comparison(2)[OF assms p])
  from serve_ab_test_Comparison(1)[OF assms p] obtain t where
    tm: "test_models prov toNumber t (or_three (runs_per_model body)) models [] [] = (Inr ms, tr)"
    by blast
  from test_models_Inr[OF tm]
  obtain new where new: "ms = [] @ new" "map model_name new = map snd models"
    "\<forall>m\<in>set new. model_success_rate m = 100 \<and> (\<forall>r\<in>set (model_runs m). success r)"
    by blast
  then have names: "map model_name ms = map snd models" by simp
  then show "map model_name ms =
               [''Gemini 1.5 Flash 8B (Fast)'', ''Gemini 1.5 Flash (Balanced)'',
                ''Gemini 1.5 Pro (Quality)'']"
    by (simp add: models_def)
  from names have "length ms = length models" by (metis length_map)
  then show "length ms = 3" by (simp add: models_def)
  fix m assume "m \<in> set ms"
  with new show "model_success_rate m = 100" by simp
  fix r assume "r \<in> set (model_runs m)"
  with new \<open>m \<in> set ms\<close> show "success r" by simp
qed

theorem comparison_has_three_models_witness:
  "\<exists>resp tr ms.
      serve_ab_test (Some ''secret'') example_provider (\<lambda>s. NaN) ''POST''
        \<lparr> ab_task = Some (str ''Summarize''), runs_per_model = Some 2 \<rparr> = (resp, tr)
    \<and> payload resp = Comparison ms
    \<and> status resp = 200
    \<and> length ms = 3
    \<and> map model_name ms =
         [''Gemini 1.5 Flash 8B (Fast)'', ''Gemini 1.5 Flash (Balanced)'',
          ''Gemini 1.5 Pro (Quality)'']
    \<and> list_all (\<lambda>m. model_success_rate m = 100) ms
    \<and> fetches tr = 6"
proof -
  have "\<forall>j<length models * nat 2. \<exists>r. ab_run_of_call (example_provider (fetches [] + j)) = Inr r"
    by (simp add: example_provider_def example_call_ab_run)
  from test_models_returns[OF this] obtain ms tr where
    tm: "test_models example_provider (\<lambda>s. NaN) (str ''Summarize'') 2 models [] [] = (Inr ms, tr)"
    by blast
  have nb: "trim (str ''Summarize'') \<noteq> []"
    using summarize_not_blank by (simp add: blank_trim)
  have s: "serve_ab_test (Some ''secret'') example_provider (\<lambda>s. NaN) ''POST''
          \<lparr> ab_task = Some (str ''Summarize''), runs_per_model = Some 2 \<rparr>
        = (\<lparr> status = 200, payload = Comparison ms \<rparr>, tr)"
    using nb tm by (simp add: serve_ab_test_def)
  have f: "fetches tr = 6"
    using test_models_Inr[OF tm] by (simp add: fetches_Nil models_def)
  from comparison_has_three_models[OF s]
  have "length ms = 3"
    "map model_name ms =
         [''Gemini 1.5 Flash 8B (Fast)'', ''Gemini 1.5 Flash (Balanced)'',
          ''Gemini 1.5 Pro (Quality)'']"
    "list_all (\<lambda>m. model_success_rate m = 100) ms"
    by (simp_all add: list_all_iff)
  with s f show ?thesis
    by (intro exI[of _ "\<lparr> status = 200, payload = Comparison ms \<rparr>"] exI[of _ tr] exI[of _ ms]) simp
qed

text \<open>
  Claim C6, as stated: for every provider response value, whatever its shape, the runner
  reads it without a type error. It fails: a reply with status 200 and the body \<open>null\<close>
  makes \<open>data.candidates\<close> throw, and so do a safety entry that is \<open>null\<close>, a
  \<open>safetyRatings\<close> value that is neither a list nor a text, and a token count or a rating
  category that cannot be turned into a primitive value.
\<close>

theorem extraction_throws_on_null_reply:
  "responseText_of JNull = Inl TypeError
   \<and> ab_run_of_call null_reply_call = Inl TypeError
   \<and> run_of_call example_toLowerCase null_reply_call [] = Inl TypeError
   \<and> safetyRatings_of
         (JObj [(str ''candidates'', JArr [JObj [(str ''safetyRatings'', JArr [JNull])]])])
       = Inl TypeError
   \<and> safetyRatings_of
         (JObj [(str ''candidates'', JArr [JObj [(str ''safetyRatings'', JBool True)]])])
       = Inl TypeError
   \<and> tokenCount_of unprintable_tokens_data = Inl TypeError
   \<and> safetyRatings_of unprintable_category_data = Inl TypeError"
  by code_simp

text \<open>
  Claim C6, amended: for every provider response value other than \<open>null\<close> whose first
  candidate's \<open>safetyRatings\<close> is missing, false, or a list (or text) whose entries are
  neither \<open>null\<close> nor \<open>undefined\<close> and have a printable \<open>category\<close>, and whose two token
  counts are printable, reading the reply throws no type error; the response text is the
  empty string when any level of \<open>candidates\<close>, its first element, \<open>content\<close>, \<open>parts\<close>, its
  first element or \<open>text\<close> is missing; the safety ratings are the empty record when the
  first candidate has no safety entries; and the token count takes 0 for each missing usage
  field (for whole-number counts whose magnitudes add up to at most \<open>2^53\<close>, where the
  language adds exactly). The runner of the comparison then throws no type error, and the
  runner of the single evaluation throws none when the expected output is blank or the
  text is a string.
\<close>

theorem extraction_tolerates_missing_levels:
  assumes "\<not> nullish data"
    and "usable_ratings (opt (field ''safetyRatings'') (opt first (field ''candidates'' data)))"
    and "printable (opt (field ''promptTokenCount'') (field ''usageMetadata'' data))"
    and "printable (opt (field ''candidatesTokenCount'') (field ''usageMetadata'' data))"
  shows "(\<exists>v. responseText_of data = Inr v)
         \<and> (nullish (field ''candidates'' data)
              \<or> nullish (opt first (field ''candidates'' data))
              \<or> nullish (opt (field ''content'') (opt first (field ''candidates'' data)))
              \<or> nullish (opt (field ''parts'') (opt (field ''content'')
                    (opt first (field ''candidates'' data))))
              \<or> nullish (opt first (opt (field ''parts'') (opt (field ''content'')
                    (opt first (field ''candidates'' data)))))
              \<or> nullish (opt (field ''text'') (opt first (opt (field ''parts'')
                    (opt (field ''content'') (opt first (field ''candidates'' data))))))
              \<longrightarrow> responseText_of data = Inr (JStr []))
         \<and> (\<exists>sr. safetyRatings_of data = Inr sr)
         \<and> (nullish (opt (field ''safetyRatings'') (opt first (field ''candidates'' data)))
              \<or> opt (field ''safetyRatings'') (opt first (field ''candidates'' data)) = JArr []
              \<longrightarrow> safetyRatings_of data = Inr [])
         \<and> (\<exists>tc. tokenCount_of data = Inr tc)
         \<and> (\<forall>p c. (nullish (opt (field ''promptTokenCount'') (field ''usageMetadata'' data))
                      \<and> p = 0
                    \<or> opt (field ''promptTokenCount'') (field ''usageMetadata'' data) = JNum p)
                 \<and> (nullish (opt (field ''candidatesTokenCount'') (field ''usageMetadata'' data))
                      \<and> c = 0
                    \<or> opt (field ''candidatesTokenCount'') (field ''usageMetadata'' data) = JNum c)
                 \<and> \<bar>p\<bar> + \<bar>c\<bar> \<le> 2 ^ 53
              \<longrightarrow> tokenCount_of data = Inr (JNum (p + c)))
         \<and> (\<forall>c response. reply c = Replied response \<and> json_body response = Some data
              \<longrightarrow> ab_run_of_call c \<noteq> Inl TypeError
                \<and> (\<forall>lc e. blank e \<or> (\<exists>s. responseText_of data = Inr (JStr s))
                       \<longrightarrow> run_of_call lc c e \<noteq> Inl TypeError))"
proof -
  let ?c = "field ''candidates'' data"
  let ?t = "opt (field ''text'') (opt first (opt (field ''parts'')
                    (opt (field ''content'') (opt first ?c))))"
  let ?sr = "opt (field ''safetyRatings'') (opt first ?c)"
  let ?p = "opt (field ''promptTokenCount'') (field ''usageMetadata'' data)"
  let ?k = "opt (field ''candidatesTokenCount'') (field ''usageMetadata'' data)"
  define rtxt where "rtxt = js_or ?t (JStr [])"
  have rt: "responseText_of data = Inr rtxt"
    unfolding rtxt_def by (rule responseText_of_returns[OF assms(1)])
  obtain sr where sr: "safetyRatings_of data = Inr sr"
    using safetyRatings_of_returns[OF assms(1,2)] by blast
  have tk0: "tokenCount_of data = js_add (js_or ?p (JNum 0)) (js_or ?k (JNum 0))"
    by (rule tokenCount_of_returns[OF assms(1)])
  from js_or_printable[OF assms(3)] obtain pp where pp: "to_primitive (js_or ?p (JNum 0)) = Inr pp"
    by blast
  from js_or_printable[OF assms(4)] obtain pk where pk: "to_primitive (js_or ?k (JNum 0)) = Inr pk"
    by blast
  from js_add_returns[OF pp pk] obtain tc where tk: "tokenCount_of data = Inr tc"
    unfolding tk0 by blast
  have missing: "nullish ?c \<or> nullish (opt first ?c)
              \<or> nullish (opt (field ''content'') (opt first ?c))
              \<or> nullish (opt (field ''parts'') (opt (field ''content'') (opt first ?c)))
              \<or> nullish (opt first (opt (field ''parts'') (opt (field ''content'') (opt first ?c))))
              \<or> nullish ?t
              \<longrightarrow> responseText_of data = Inr (JStr [])"
  proof
    assume "nullish ?c \<or> nullish (opt first ?c)
              \<or> nullish (opt (field ''content'') (opt first ?c))
              \<or> nullish (opt (field ''parts'') (opt (field ''content'') (opt first ?c)))
              \<or> nullish (opt first (opt (field ''parts'') (opt (field ''content'') (opt first ?c))))
              \<or> nullish ?t"
    then have "nullish ?t" by (auto simp: opt_nullish)
    then have "rtxt = JStr []" unfolding rtxt_def by (rule js_or_nullish)
    with rt show "responseText_of data = Inr (JStr [])" by simp
  qed
  have none: "nullish ?sr \<or> ?sr = JArr [] \<longrightarrow> safetyRatings_of data = Inr []"
    using safetyRatings_of_none[OF assms(1)] by blast
  have tokens: "\<forall>p c. (nullish ?p \<and> p = 0 \<or> ?p = JNum p) \<and> (nullish ?k \<and> c = 0 \<or> ?k = JNum c)
                 \<and> \<bar>p\<bar> + \<bar>c\<bar> \<le> 2 ^ 53
              \<longrightarrow> tokenCount_of data = Inr (JNum (p + c))"
    unfolding tk0 by (auto simp: js_or_nullish js_or_number js_add_numbers)
  have runs: "\<forall>c response. reply c = Replied response \<and> json_body response = Some data
              \<longrightarrow> ab_run_of_call c \<noteq> Inl TypeError
                \<and> (\<forall>lc e. blank e \<or> (\<exists>s. responseText_of data = Inr (JStr s))
                      \<longrightarrow> run_of_call lc c e \<noteq> Inl TypeError)"
  proof (intro allI impI conjI)
    fix c :: call and response :: http_response
    assume a: "reply c = Replied response \<and> json_body response = Some data"
    then show "ab_run_of_call c \<noteq> Inl TypeError"
      using rt sr tk by (simp add: ab_run_of_call_def Let_def provider_error_def)
    fix lc :: "jstring \<Rightarrow> jstring" and e
    assume "blank e \<or> (\<exists>s. responseText_of data = Inr (JStr s))"
    then have "\<exists>b. checkSuccess lc rtxt e = Inr b"
      unfolding rt by (auto simp: checkSuccess_def blank_trim)
    then obtain b where "checkSuccess lc rtxt e = Inr b" by blast
    with a show "run_of_call lc c e \<noteq> Inl TypeError"
      using rt sr tk by (simp add: run_of_call_def Let_def provider_error_def)
  qed
  have e1: "\<exists>v. responseText_of data = Inr v" using rt by blast
  have e2: "\<exists>sr. safetyRatings_of data = Inr sr" using sr by blast
  have e3: "\<exists>tc. tokenCount_of data = Inr tc" using tk by blast
  from e1 missing e2 none e3 tokens runs show ?thesis by (intro conjI)
qed

theorem extraction_tolerates_missing_levels_witness:
  "\<not> nullish (JObj [(str ''usageMetadata'', JObj [(str ''promptTokenCount'', JNum 5)])])
   \<and> responseText_of (JObj [(str ''usageMetadata'', JObj [(str ''promptTokenCount'', JNum 5)])])
       = Inr (JStr [])
   \<and> safetyRatings_of (JObj [(str ''usageMetadata'', JObj [(str ''promptTokenCount'', JNum 5)])])
       = Inr []
   \<and> tokenCount_of (JObj [(str ''usageMetadata'', JObj [(str ''promptTokenCount'', JNum 5)])])
       = Inr (JNum 5)"
proof -
  let ?data = "JObj [(str ''usageMetadata'', JObj [(str ''promptTokenCount'', JNum 5)])]"
  have h1: "\<not> nullish ?data" by simp
  have h2: "usable_ratings (opt (field ''safetyRatings'') (opt first (field ''candidates'' ?data)))"
    by code_simp
  have h3: "printable (opt (field ''promptTokenCount'') (field ''usageMetadata'' ?data))"
    by code_simp
  have h4: "printable (opt (field ''candidatesTokenCount'') (field ''usageMetadata'' ?data))"
    by code_simp
  have f1: "nullish (field ''candidates'' ?data)" by code_simp
  have f2: "nullish (opt (field ''safetyRatings'') (opt first (field ''candidates'' ?data)))"
    by code_simp
  have f3: "opt (field ''promptTokenCount'') (field ''usageMetadata'' ?data) = JNum 5"
    by code_simp
  have f4: "nullish (opt (field ''candidatesTokenCount'') (field ''usageMetadata'' ?data))"
    by code_simp
  note main = extraction_tolerates_missing_levels[OF h1 h2 h3 h4]
  from main have t: "nullish (field ''candidates'' ?data) \<longrightarrow> responseText_of ?data = Inr (JStr [])"
    by (elim conjE) (intro impI, erule mp, erule disjI1)
  from main have s: "nullish (opt (field ''safetyRatings'') (opt first (field ''candidates'' ?data)))
      \<longrightarrow> safetyRatings_of ?data = Inr []"
    by (elim conjE) (intro impI, erule mp, erule disjI1)
  from main have k: "\<forall>p c.
        (nullish (opt (field ''promptTokenCount'') (field ''usageMetadata'' ?data)) \<and> p = 0
           \<or> opt (field ''promptTokenCount'') (field ''usageMetadata'' ?data) = JNum p)
      \<and> (nullish (opt (field ''candidatesTokenCount'') (field ''usageMetadata'' ?data)) \<and> c = 0
           \<or> opt (field ''candidatesTokenCount'') (field ''usageMetadata'' ?data) = JNum c)
      \<and> \<bar>p\<bar> + \<bar>c\<bar> \<le> 2 ^ 53
      \<longrightarrow> tokenCount_of ?data = Inr (JNum (p + c))"
    by (elim conjE)
  from t f1 have a: "responseText_of ?data = Inr (JStr [])" by (rule mp)
  from s f2 have b: "safetyRatings_of ?data = Inr []" by (rule mp)
  have "(nullish (opt (field ''promptTokenCount'') (field ''usageMetadata'' ?data)) \<and> (5::int) = 0
           \<or> opt (field ''promptTokenCount'') (field ''usageMetadata'' ?data) = JNum 5)
      \<and> (nullish (opt (field ''candidatesTokenCount'') (field ''usageMetadata'' ?data))
             \<and> (0::int) = 0
           \<or> opt (field ''candidatesTokenCount'') (field ''usageMetadata'' ?data) = JNum 0)
      \<and> \<bar>5::int\<bar> + \<bar>0\<bar> \<le> 2 ^ 53"
    using f3 f4 by simp
  with k[rule_format, of 5 0] have c: "tokenCount_of ?data = Inr (JNum 5)" by simp
  from h1 a b c show ?thesis by (intro conjI)
qed

text \<open>
  Claim C7. If a provider call made during an aggregation returns a non-success HTTP
  status, the whole request fails with status 500 and a detail that embeds the provider's
  status code and its raw error body; no run collected before is returned (the payload is
  the detail alone), and the failed call is the last call: nothing is retried. Here \<open>j\<close>
  counts the provider calls before the failing one, each of which yielded a run.
\<close>

theorem provider_error_aborts_request:
  assumes "\<not> no_credential key" and "meth \<noteq> ''OPTIONS''"
    and "reply (prov j) = Replied response" and "\<not> ok response"
  shows "((\<exists>t. task body = Some t \<and> \<not> blank t)
          \<and> 1 \<le> or_three (k body) \<and> or_three (k body) \<le> 10
          \<and> j < nat (or_three (k body))
          \<and> (\<forall>i<j. \<exists>r. run_of_call lc (prov i) (or_empty (expected_output body)) = Inr r)
          \<longrightarrow> (\<exists>tr. serve_evaluate key lc prov meth body
                     = (\<lparr> status = 500,
                          payload = Detail (Text (str ''Gemini API error: ''
                                      @ str (show_nat (http_status response)) @ str '' - ''
                                      @ text_body response)) \<rparr>, tr)
                   \<and> fetches tr = j + 1))
       \<and> ((\<exists>t. ab_task ab_body = Some t \<and> \<not> blank t)
          \<and> 1 \<le> or_three (runs_per_model ab_body) \<and> or_three (runs_per_model ab_body) \<le> 10
          \<and> j < 3 * nat (or_three (runs_per_model ab_body))
          \<and> (\<forall>i<j. \<exists>r. ab_run_of_call (prov i) = Inr r)
          \<longrightarrow> (\<exists>tr. serve_ab_test key prov toNumber meth ab_body
                     = (\<lparr> status = 500,
                          payload = Detail (Text (str ''Gemini API error: ''
                                      @ str (show_nat (http_status response)) @ str '' - ''
                                      @ text_body response)) \<rparr>, tr)
                   \<and> fetches tr = j + 1))"
proof (intro conjI impI)
  let ?e = "or_empty (expected_output body)"
  assume a: "(\<exists>t. task body = Some t \<and> \<not> blank t)
          \<and> 1 \<le> or_three (k body) \<and> or_three (k body) \<le> 10
          \<and> j < nat (or_three (k body))
          \<and> (\<forall>i<j. \<exists>r. run_of_call lc (prov i) ?e = Inr r)"
  then obtain t where t: "task body = Some t" and nt: "\<not> blank t" by blast
  from a have j: "j < nat (or_three (k body))" by simp
  from a have oks: "\<forall>i<j. \<exists>r. run_of_call lc (prov (fetches [] + i)) ?e = Inr r"
    by (simp add: fetches_Nil)
  have bad: "run_of_call lc (prov (fetches [] + j)) ?e = Inl (provider_error response)"
    using run_of_call_http_error[OF assms(3,4)] by (simp add: fetches_Nil)
  from calculatePassAtK_aborts[OF j oks bad, of t "''gemini-1.5-flash''"]
  obtain tr where c: "calculatePassAtK lc prov t ?e (or_three (k body))
        ''gemini-1.5-flash'' [] = (Inl (provider_error response), tr)"
    and f: "fetches tr = j + 1"
    by (auto simp: fetches_Nil)
  have "serve_evaluate key lc prov meth body
      = (\<lparr> status = 500, payload = Detail (message (provider_error response)) \<rparr>, tr)"
    using a by (simp add: serve_evaluate_runs[OF assms(1,2) t nt] c)
  with f show "\<exists>tr. serve_evaluate key lc prov meth body
                     = (\<lparr> status = 500,
                          payload = Detail (Text (str ''Gemini API error: ''
                                      @ str (show_nat (http_status response)) @ str '' - ''
                                      @ text_body response)) \<rparr>, tr)
                   \<and> fetches tr = j + 1"
    by (simp add: provider_error_def)
next
  assume a: "(\<exists>t. ab_task ab_body = Some t \<and> \<not> blank t)
          \<and> 1 \<le> or_three (runs_per_model ab_body) \<and> or_three (runs_per_model ab_body) \<le> 10
          \<and> j < 3 * nat (or_three (runs_per_model ab_body))
          \<and> (\<forall>i<j. \<exists>r. ab_run_of_call (prov i) = Inr r)"
  then obtain t where t: "ab_task ab_body = Some t" and nt: "\<not> blank t" by blast
  from a have j: "j < length models * nat (or_three (runs_per_model ab_body))"
    by (simp add: models_def)
  from a have oks: "\<forall>i<j. \<exists>r. ab_run_of_call (prov (fetches [] + i)) = Inr r"
    by (simp add: fetches_Nil)
  have bad: "ab_run_of_call (prov (fetches [] + j)) = Inl (provider_error response)"
    using ab_run_of_call_http_error[OF assms(3,4)] by (simp add: fetches_Nil)
  from test_models_aborts[OF j oks bad, of toNumber t "[]"]
  obtain tr where c: "test_models prov toNumber t
        (or_three (runs_per_model ab_body)) models [] [] = (Inl (provider_error response), tr)"
    and f: "fetches tr = j + 1"
    by (auto simp: fetches_Nil)
  have "serve_ab_test key prov toNumber meth ab_body
      = (\<lparr> status = 500, payload = Detail (message (provider_error response)) \<rparr>, tr)"
    using a by (simp add: serve_ab_test_runs[OF assms(1,2) t nt] c)
  with f show "\<exists>tr. serve_ab_test key prov toNumber meth ab_body
                     = (\<lparr> status = 500,
                          payload = Detail (Text (str ''Gemini API error: ''
                                      @ str (show_nat (http_status response)) @ str '' - ''
                                      @ text_body response)) \<rparr>, tr)
                   \<and> fetches tr = j + 1"
    by (simp add: provider_error_def)
qed

theorem provider_error_aborts_request_witness:
  "(\<exists>tr. serve_evaluate (Some ''secret'') example_toLowerCase example_failing_provider ''POST''
           \<lparr> task = Some (str ''Summarize''), expected_output = None, k = Some 3 \<rparr>
         = (\<lparr> status = 500,
              payload = Detail (Text (str ''Gemini API error: 429 - quota exceeded'')) \<rparr>, tr)
       \<and> fetches tr = 2)
   \<and> (\<exists>tr. serve_ab_test (Some ''secret'') example_failing_provider (\<lambda>s. NaN) ''POST''
           \<lparr> ab_task = Some (str ''Summarize''), runs_per_model = Some 3 \<rparr>
         = (\<lparr> status = 500,
              payload = Detail (Text (str ''Gemini API error: 429 - quota exceeded'')) \<rparr>, tr)
       \<and> fetches tr = 2)"
proof -
  let ?response = "\<lparr> http_status = 429, text_body = str ''quota exceeded'', json_body = None \<rparr>"
  have c: "\<not> no_credential (Some ''secret'')" by simp
  have m: "''POST'' \<noteq> ''OPTIONS''" by simp
  have r: "reply (example_failing_provider 1) = Replied ?response"
    by (simp add: example_failing_provider_def example_error_call_def)
  have nok: "\<not> ok ?response" by (simp add: ok_def)
  have nb: "\<not> blank (str ''Summarize'')" by (rule summarize_not_blank)
  have n429: "show_nat 429 = ''429''" by code_simp
  note main = provider_error_aborts_request[where key = "Some ''secret''" and meth = "''POST''"
      and prov = example_failing_provider and j = 1 and response = ?response
      and body = "\<lparr> task = Some (str ''Summarize''), expected_output = None, k = Some 3 \<rparr>"
      and ab_body = "\<lparr> ab_task = Some (str ''Summarize''), runs_per_model = Some 3 \<rparr>"
      and toNumber = "\<lambda>s. NaN" and lc = example_toLowerCase, OF c m r nok]
  have detail: "str ''Gemini API error: '' @ str ''429'' @ str '' - '' @ str ''quota exceeded''
      = str ''Gemini API error: 429 - quota exceeded''"
    by (simp add: str_def)
  have e: "\<forall>i<1. \<exists>r. run_of_call example_toLowerCase (example_failing_provider i) [] = Inr r"
    by (simp add: example_failing_provider_def example_call_run)
  have a: "\<forall>i<1. \<exists>r. ab_run_of_call (example_failing_provider i) = Inr r"
    by (simp add: example_failing_provider_def example_call_ab_run)
  from main nb e have 1: "\<exists>tr. serve_evaluate (Some ''secret'') example_toLowerCase example_failing_provider ''POST''
           \<lparr> task = Some (str ''Summarize''), expected_output = None, k = Some 3 \<rparr>
         = (\<lparr> status = 500,
              payload = Detail (Text (str ''Gemini API error: 429 - quota exceeded'')) \<rparr>, tr)
       \<and> fetches tr = 2"
    by (auto simp: n429 detail numeral_2_eq_2)
  from main nb a have 2: "\<exists>tr. serve_ab_test (Some ''secret'') example_failing_provider (\<lambda>s. NaN) ''POST''
           \<lparr> ab_task = Some (str ''Summarize''), runs_per_model = Some 3 \<rparr>
         = (\<lparr> status = 500,
              payload = Detail (Text (str ''Gemini API error: 429 - quota exceeded'')) \<rparr>, tr)
       \<and> fetches tr = 2"
    by (auto simp: n429 detail numeral_2_eq_2)
  from 1 2 show ?thesis by (intro conjI)
qed

text \<open>
  Claim C8. In every model result of a comparison over R runs, \<open>average_latency\<close> and
  \<open>average_tokens\<close> are the arithmetic means of the R runs' \<open>latency_ms\<close> and \<open>token_count\<close>
  values, rounded to two decimal places; in a single evaluation \<open>average_latency\<close> is the
  mean of the K runs' \<open>latency_ms\<close>, rounded the same way. Latencies 100, 200, 300 give the
  average 200. (The token counts are numbers here: \<open>cs\<close> lists them.)
\<close>

theorem averages_are_rounded_means:
  assumes "0 < R" and "0 < K"
  shows "(\<forall>mres tr'. testModel prov toNumber t mid name R tr = (Inr mres, tr') \<longrightarrow>
            int (length (model_runs mres)) = R
          \<and> rounded_to_2_decimals (mean (map latency_ms (model_runs mres)))
               (model_average_latency mres)
          \<and> (\<forall>cs. map token_count (model_runs mres) = map JNum cs \<longrightarrow>
                (\<exists>y. average_tokens mres = Fin y
                    \<and> rounded_to_2_decimals (mean (map of_int cs)) y)))
       \<and> (\<forall>res tr'. calculatePassAtK lc prov t e K m tr = (Inr res, tr') \<longrightarrow>
            int (length (runs res)) = K
          \<and> rounded_to_2_decimals (mean (map latency_ms (runs res))) (average_latency res))"
proof (intro conjI allI impI)
  fix mres tr'
  assume ret: "testModel prov toNumber t mid name R tr = (Inr mres, tr')"
  show len: "int (length (model_runs mres)) = R"
    using testModel_Inr(1)[OF ret] assms(1) by simp
  then have pos: "length (model_runs mres) > 0" using assms(1) by auto
  have "model_average_latency mres = round2 (mean (map latency_ms (model_runs mres)))"
    using testModel_Inr(6)[OF ret] pos by (simp add: mean_def)
  then show "rounded_to_2_decimals (mean (map latency_ms (model_runs mres)))
               (model_average_latency mres)"
    by (simp add: round2_rounded)
  fix cs
  assume cs: "map token_count (model_runs mres) = map JNum cs"
  then have "length cs = length (model_runs mres)" by (metis length_map)
  then have "average_tokens mres = Fin (round2 (mean (map of_int cs)))"
    using testModel_Inr(7)[OF ret] pos token_sum_numbers[OF cs]
    by (auto simp: averageTokens_of_def mean_def of_int_sum_list)
  then show "\<exists>y. average_tokens mres = Fin y \<and> rounded_to_2_decimals (mean (map of_int cs)) y"
    by (simp add: round2_rounded)
next
  fix res tr'
  assume ret: "calculatePassAtK lc prov t e K m tr = (Inr res, tr')"
  show len: "int (length (runs res)) = K"
    using calculatePassAtK_Inr(1)[OF ret] assms(2) by simp
  then have "(of_int K :: rat) = of_nat (length (runs res))" by (metis of_int_of_nat_eq)
  then have "average_latency res = round2 (mean (map latency_ms (runs res)))"
    using calculatePassAtK_Inr(7)[OF ret] assms(2) by (simp add: mean_def)
  then show "rounded_to_2_decimals (mean (map latency_ms (runs res))) (average_latency res)"
    by (simp add: round2_rounded)
qed

theorem averages_are_rounded_means_witness:
  "(\<exists>mres tr'. testModel example_provider (\<lambda>s. NaN) (str ''Summarize'') ''gemini-1.5-pro''
                   ''Gemini 1.5 Pro (Quality)'' 3 [] = (Inr mres, tr')
      \<and> map latency_ms (model_runs mres) = [100, 200, 300]
      \<and> model_average_latency mres = 200
      \<and> map token_count (model_runs mres) = [JNum 12, JNum 12, JNum 12]
      \<and> average_tokens mres = Fin 12)
   \<and> (\<exists>res tr'. calculatePassAtK example_toLowerCase example_provider (str ''Summarize'') (str ''diagnosis'') 3
                    ''gemini-1.5-flash'' [] = (Inr res, tr')
      \<and> map latency_ms (runs res) = [100, 200, 300]
      \<and> average_latency res = 200)
   \<and> rounded_to_2_decimals (mean [100, 200, 300]) 200"
proof -
  have three: "(0::int) < 3" by simp
  note main = averages_are_rounded_means[OF three three, of example_provider "\<lambda>s. NaN"
      "str ''Summarize''" "''gemini-1.5-pro''" "''Gemini 1.5 Pro (Quality)''" "[]" example_toLowerCase
      "str ''diagnosis''"
      "''gemini-1.5-flash''"]
  have "case testModel example_provider (\<lambda>s. NaN) (str ''Summarize'') ''gemini-1.5-pro''
               ''Gemini 1.5 Pro (Quality)'' 3 [] of
          (Inr mres, tr') \<Rightarrow> map latency_ms (model_runs mres) = [100, 200, 300]
             \<and> model_average_latency mres = 200
             \<and> map token_count (model_runs mres) = [JNum 12, JNum 12, JNum 12]
             \<and> average_tokens mres = Fin 12
        | (Inl e, tr') \<Rightarrow> False"
    by code_simp
  then obtain mres tr' where
    ret: "testModel example_provider (\<lambda>s. NaN) (str ''Summarize'') ''gemini-1.5-pro''
               ''Gemini 1.5 Pro (Quality)'' 3 [] = (Inr mres, tr')"
    and m: "map latency_ms (model_runs mres) = [100, 200, 300]" "model_average_latency mres = 200"
      "map token_count (model_runs mres) = [JNum 12, JNum 12, JNum 12]" "average_tokens mres = Fin 12"
    by (auto split: prod.splits sum.splits)
  have "case calculatePassAtK example_toLowerCase example_provider (str ''Summarize'') (str ''diagnosis'') 3 ''gemini-1.5-flash'' [] of
          (Inr res, tr') \<Rightarrow> map latency_ms (runs res) = [100, 200, 300] \<and> average_latency res = 200
        | (Inl e, tr') \<Rightarrow> False"
    by code_simp
  then obtain res tr2 where
    ret2: "calculatePassAtK example_toLowerCase example_provider (str ''Summarize'') (str ''diagnosis'') 3 ''gemini-1.5-flash'' []
             = (Inr res, tr2)"
    and r: "map latency_ms (runs res) = [100, 200, 300]" "average_latency res = 200"
    by (auto split: prod.splits sum.splits)
  from main ret2 have "rounded_to_2_decimals (mean (map latency_ms (runs res))) (average_latency res)"
    by blast
  then have C: "rounded_to_2_decimals (mean [100, 200, 300]) 200" using r by simp
  show ?thesis
  proof (intro conjI)
    show "\<exists>mres tr'. testModel example_provider (\<lambda>s. NaN) (str ''Summarize'') ''gemini-1.5-pro''
                   ''Gemini 1.5 Pro (Quality)'' 3 [] = (Inr mres, tr')
      \<and> map latency_ms (model_runs mres) = [100, 200, 300]
      \<and> model_average_latency mres = 200
      \<and> map token_count (model_runs mres) = [JNum 12, JNum 12, JNum 12]
      \<and> average_tokens mres = Fin 12"
      using ret m by (intro exI[of _ mres] exI[of _ tr']) simp
    show "\<exists>res tr'. calculatePassAtK example_toLowerCase example_provider (str ''Summarize'') (str ''diagnosis'') 3
                    ''gemini-1.5-flash'' [] = (Inr res, tr')
      \<and> map latency_ms (runs res) = [100, 200, 300]
      \<and> average_latency res = 200"
      using ret2 r by (intro exI[of _ res] exI[of _ tr2]) simp
    show "rounded_to_2_decimals (mean [100, 200, 300]) 200" by (rule C)
  qed
qed

text \<open>
  Claim C9. For every request to either endpoint whose task is blank, all white space, or
  missing, the request is rejected with status 400 before any provider call is made: the
  trace of the request is empty. (The handler runs with its provider credential; the
  request is not a CORS preflight.)
\<close>

theorem blank_task_is_rejected:
  assumes "\<not> no_credential key" and "meth \<noteq> ''OPTIONS''"
  shows "((case task body of None \<Rightarrow> True | Some t \<Rightarrow> blank t) \<longrightarrow>
            serve_evaluate key lc prov meth body
              = (\<lparr> status = 400, payload = Detail (Text (str ''task cannot be empty'')) \<rparr>, []))
       \<and> ((case ab_task ab_body of None \<Rightarrow> True | Some t \<Rightarrow> blank t) \<longrightarrow>
            serve_ab_test key prov toNumber meth ab_body
              = (\<lparr> status = 400, payload = Detail (Text (str ''task cannot be empty'')) \<rparr>, []))
       \<and> fetches [] = 0"
  using assms
  by (simp add: serve_evaluate_def serve_ab_test_def blank_trim fetches_Nil split: option.splits)

theorem blank_task_is_rejected_witness:
  "\<not> no_credential (Some ''secret'')
   \<and> blank [0x20, 0x0A]
   \<and> serve_evaluate (Some ''secret'') example_toLowerCase example_provider ''POST''
        \<lparr> task = Some [0x20, 0x0A], expected_output = None, k = Some 3 \<rparr>
       = (\<lparr> status = 400, payload = Detail (Text (str ''task cannot be empty'')) \<rparr>, [])
   \<and> serve_ab_test (Some ''secret'') example_provider (\<lambda>s. NaN) ''POST''
        \<lparr> ab_task = None, runs_per_model = Some 3 \<rparr>
       = (\<lparr> status = 400, payload = Detail (Text (str ''task cannot be empty'')) \<rparr>, [])"
proof -
  have c: "\<not> no_credential (Some ''secret'')" by simp
  have m: "''POST'' \<noteq> ''OPTIONS''" by simp
  have b: "blank [0x20, 0x0A]" by (simp add: blank_def js_whitespace_def)
  from blank_task_is_rejected[OF c m,
      of "\<lparr> task = Some [0x20, 0x0A], expected_output = None, k = Some 3 \<rparr>"
         example_toLowerCase example_provider "\<lparr> ab_task = None, runs_per_model = Some 3 \<rparr>" "\<lambda>s. NaN"] b c
  show ?thesis by simp
qed

text \<open>
  Claim C10. For every run produced by either workflow, \<open>latency_ms\<close> is a whole number:
  it is the difference of the two integer clock readings taken around the provider call
  of that run, and rounding to two decimals leaves a whole number as it is.
\<close>

theorem latency_is_whole_number:
  "(\<forall>res tr'. calculatePassAtK lc prov t e K m tr = (Inr res, tr') \<longrightarrow>
      (\<forall>j<length (runs res).
         latency_ms (runs res ! j)
           = of_int (endTime (prov (fetches tr + j)) - startTime (prov (fetches tr + j)))))
   \<and> (\<forall>mres tr'. testModel prov toNumber t mid name R tr = (Inr mres, tr') \<longrightarrow>
      (\<forall>j<length (model_runs mres).
         latency_ms (model_runs mres ! j)
           = of_int (endTime (prov (fetches tr + j)) - startTime (prov (fetches tr + j)))))
   \<and> (\<forall>n. round2 (of_int n) = of_int n)"
proof (intro conjI allI impI)
  fix res tr' j
  assume ret: "calculatePassAtK lc prov t e K m tr = (Inr res, tr')" and j: "j < length (runs res)"
  note rs = calculatePassAtK_Inr(1)[OF ret]
  from j rs have jK: "j < nat K" by simp
  with calculatePassAtK_Inr(4)[OF ret] obtain r where
    r: "run_of_call lc (prov (fetches tr + j)) e = Inr r" by blast
  have "runs res ! j = r\<lparr>run_number := 1 + int j\<rparr>" using jK r unfolding rs by simp
  then show "latency_ms (runs res ! j)
      = of_int (endTime (prov (fetches tr + j)) - startTime (prov (fetches tr + j)))"
    using run_of_call_latency[OF r] by simp
next
  fix mres tr' j
  assume ret: "testModel prov toNumber t mid name R tr = (Inr mres, tr')"
    and j: "j < length (model_runs mres)"
  note rs = testModel_Inr(1)[OF ret]
  from j rs have jR: "j < nat R" by simp
  with testModel_Inr(5)[OF ret] obtain r where
    r: "ab_run_of_call (prov (fetches tr + j)) = Inr r" by blast
  have "model_runs mres ! j = r\<lparr>run_number := 1 + int j\<rparr>" using jR r unfolding rs by simp
  then show "latency_ms (model_runs mres ! j)
      = of_int (endTime (prov (fetches tr + j)) - startTime (prov (fetches tr + j)))"
    using ab_run_of_call_latency[OF r] by simp
next
  fix n show "round2 (of_int n) = of_int n" by (rule round2_of_int)
qed

theorem latency_is_whole_number_witness:
  "(\<exists>res tr'. calculatePassAtK example_toLowerCase example_provider (str ''Summarize'') [] 3
                  ''gemini-1.5-flash'' [] = (Inr res, tr')
       \<and> latency_ms (runs res ! 1) = 200)
   \<and> (\<exists>mres tr'. testModel example_provider (\<lambda>s. NaN) (str ''Summarize'') ''gemini-1.5-pro''
                     ''Gemini 1.5 Pro (Quality)'' 3 [] = (Inr mres, tr')
       \<and> latency_ms (model_runs mres ! 2) = 300)"
proof -
  note main = latency_is_whole_number[of example_toLowerCase example_provider "str ''Summarize''" "[]" 3
      "''gemini-1.5-flash''" "[]" "\<lambda>s. NaN" "''gemini-1.5-pro''" "''Gemini 1.5 Pro (Quality)''" 3]
  have "\<forall>j<nat 3. \<exists>r. run_of_call example_toLowerCase (example_provider (fetches [] + j)) [] = Inr r"
    by (simp add: example_provider_def example_call_run)
  from calculatePassAtK_returns[OF this]
  obtain res tr' where
    ret: "calculatePassAtK example_toLowerCase example_provider (str ''Summarize'') [] 3
            ''gemini-1.5-flash'' [] = (Inr res, tr')"
    by blast
  have len: "length (runs res) = 3" using calculatePassAtK_Inr(1)[OF ret] by simp
  from main ret len have "latency_ms (runs res ! 1)
      = of_int (endTime (example_provider (fetches [] + 1)) - startTime (example_provider (fetches [] + 1)))"
    by auto
  then have a: "latency_ms (runs res ! 1) = 200"
    by (simp add: fetches_Nil example_provider_def example_call_def)
  have "\<forall>j<nat 3. \<exists>r. ab_run_of_call (example_provider (fetches [] + j)) = Inr r"
    by (simp add: example_provider_def example_call_ab_run)
  from testModel_returns[OF this]
  obtain mres tr2 where
    ret2: "testModel example_provider (\<lambda>s. NaN) (str ''Summarize'') ''gemini-1.5-pro''
             ''Gemini 1.5 Pro (Quality)'' 3 [] = (Inr mres, tr2)"
    by blast
  have len2: "length (model_runs mres) = 3" using testModel_Inr(1)[OF ret2] by simp
  from main ret2 len2 have "latency_ms (model_runs mres ! 2)
      = of_int (endTime (example_provider (fetches [] + 2)) - startTime (example_provider (fetches [] + 2)))"
    by auto
  then have b: "latency_ms (model_runs mres ! 2) = 300"
    by (simp add: fetches_Nil example_provider_def example_call_def)
  from ret a ret2 b show ?thesis by blast
qed

end
